theory Spec2Isabelle
  imports Main "HOL-Library.Char_ord" "HOL-Library.List_Lexorder"
begin

section \<open>Python values, exceptions and strings\<close>

text \<open>
  The notebooks are Python scripts. An exception that leaves a cell is a value of
  \<open>error\<close>; a computation that may raise returns \<open>error + 'a\<close> with \<open>Inl\<close> the exception.
  \<open>ProviderError\<close> stands for whatever the external library (seismiqb, pandas) raises.
\<close>

datatype error =
    ZeroDivisionError
  | ValueError
  | IndexError
  | KeyError
  | AttributeError
  | NameError
  | TypeError
  | FileExistsError
  | FileNotFoundError
  | PermissionError
  | NotADirectoryError
  | ProviderError string

text \<open>Python's \<open>a // b\<close> on integers: floor division, raising on a zero divisor.\<close>

definition floordiv :: "int \<Rightarrow> int \<Rightarrow> error + int" where
  "floordiv a b = (if b = 0 then Inl ZeroDivisionError else Inr (a div b))"

text \<open>
  Python's \<open>range(start, stop, step)\<close>, materialised by \<open>list(...)\<close>: it counts up while
  below \<open>stop\<close> for a positive step, down while above \<open>stop\<close> for a negative one, and
  raises \<open>ValueError\<close> for a zero step.
\<close>

function range_up :: "int \<Rightarrow> int \<Rightarrow> int \<Rightarrow> int list" where
  "range_up i stop step =
     (if 0 < step \<and> i < stop then i # range_up (i + step) stop step else [])"
  by pat_completeness auto
termination
  by (relation "measure (\<lambda>(i, stop, step). nat (stop - i))") auto

function range_down :: "int \<Rightarrow> int \<Rightarrow> int \<Rightarrow> int list" where
  "range_down i stop step =
     (if step < 0 \<and> stop < i then i # range_down (i + step) stop step else [])"
  by pat_completeness auto
termination
  by (relation "measure (\<lambda>(i, stop, step). nat (i - stop))") auto

definition py_range :: "int \<Rightarrow> int \<Rightarrow> int \<Rightarrow> error + int list" where
  "py_range start stop step =
     (if step = 0 then Inl ValueError
      else if 0 < step then Inr (range_up start stop step)
      else Inr (range_down start stop step))"

text \<open>\<open>xs[i]\<close> for an index that \<open>enumerate\<close> produced (never negative).\<close>

definition getitem :: "'a list \<Rightarrow> nat \<Rightarrow> error + 'a" where
  "getitem xs i = (if i < length xs then Inr (xs ! i) else Inl IndexError)"

text \<open>\<open>sep.join(parts)\<close>.\<close>

fun join :: "string \<Rightarrow> string list \<Rightarrow> string" where
  "join sep [] = []"
| "join sep [x] = x"
| "join sep (x # y # ys) = x @ sep @ join sep (y # ys)"

text \<open>\<open>str(n)\<close> for an integer: decimal digits, with a sign for a negative number.\<close>

fun digits :: "nat \<Rightarrow> string" where
  "digits n =
     (if n < 10 then [''0123456789'' ! n]
      else digits (n div 10) @ [''0123456789'' ! (n mod 10)])"

definition str_int :: "int \<Rightarrow> string" where
  "str_int n = (if n < 0 then CHR ''-'' # digits (nat (- n)) else digits (nat n))"

text \<open>\<open>s.startswith(prefix)\<close>.\<close>

fun startswith :: "string \<Rightarrow> string \<Rightarrow> bool" where
  "startswith s [] = True"
| "startswith [] (p # ps) = False"
| "startswith (c # cs) (p # ps) = (c = p \<and> startswith cs ps)"

text \<open>
  \<open>s.split(sep)\<close> for a separator of one character, the only kind the notebooks use:
  the pieces between the occurrences of \<open>sep\<close>, empty pieces included.
\<close>

fun split :: "char \<Rightarrow> string \<Rightarrow> string list" where
  "split sep [] = [[]]"
| "split sep (c # cs) =
     (if c = sep then [] # split sep cs
      else (case split sep cs of
              [] \<Rightarrow> [[c]]
            | piece # pieces \<Rightarrow> (c # piece) # pieces))"

text \<open>
  The values of the parameter dictionaries (\<open>None\<close>, integers, strings) and \<open>str(value)\<close>.
  A dictionary is the list of its items in iteration order.
\<close>

datatype pyval = PyNone | PyInt int | PyStr string

fun py_str :: "pyval \<Rightarrow> string" where
  "py_str PyNone = ''None''"
| "py_str (PyInt n) = str_int n"
| "py_str (PyStr s) = s"

type_synonym kwargs = "(string \<times> pyval) list"

section \<open>The filesystem and the calls to the library\<close>

text \<open>
  The calls a run makes, in the notation of the notebooks:
  \<^item> \<open>PrintGeometry name\<close>: \<open>print(geometry)\<close>, under \<open>SHOW\<close>;
  \<^item> \<open>ShowSlide loc axis show savepath\<close>: \<open>geometry.show_slide(loc, axis=i, show=SHOW, savepath=save_path)\<close>;
  \<^item> \<open>Evaluate metric_name kwargs show_plot savepath\<close>:
    \<open>gm.evaluate(metric_name, **kwargs, plot=True, show_plot=SHOW, plot_kwargs=plot_kwargs, savepath=save_path + '.png')\<close>;
  \<^item> \<open>SavePointCloud metric save_path\<close>: \<open>save_point_cloud(metric, save_path, geometry)\<close>;
  \<^item> \<open>QualityMap computed_metrics show_plot savepath\<close>:
    \<open>gm.evaluate('quality_map', quantiles=[0.1], agg=None, computed_metrics=computed_metrics, plot=True, show_plot=SHOW, plot_kwargs=plot_kwargs, savepath=save_path + '.png')\<close>.
  \<open>'m\<close> is the type of a metric result, which the notebooks never look into.
\<close>

datatype 'm call =
    PrintGeometry string
  | ShowSlide int nat bool string
  | Evaluate string kwargs bool string
  | SavePointCloud 'm string
  | QualityMap "'m list" bool string

text \<open>
  What a run can change: the directories it creates, and the calls it makes to the external
  library, recorded in the order they are made. An entry of the filesystem is known by the
  list of its names from the root, so the root is the empty list; \<open>dirs\<close> are the
  directories besides the root, \<open>files\<close> the other entries, nothing can be created inside
  a directory of \<open>readonly\<close>, and \<open>cwd\<close> is the working directory. There are no
  symbolic links, and every directory may be searched.
\<close>

record 'e world =
  dirs :: "string list set"
  files :: "string list set"
  readonly :: "string list set"
  cwd :: "string list"
  calls :: "'e list"

text \<open>
  The names of a path: the pieces between its slashes. An empty piece (a doubled or a
  trailing slash) names nothing. A path that begins with a slash starts at the root, any
  other at the working directory.
\<close>

definition components :: "string \<Rightarrow> string list" where
  "components p = filter (\<lambda>c. c \<noteq> []) (split CHR ''/'' p)"

definition start_dir :: "string \<Rightarrow> 'e world \<Rightarrow> string list" where
  "start_dir p w = (if startswith p ''/'' then [] else cwd w)"

text \<open>
  Following names from a directory: \<open>.\<close> stays, \<open>..\<close> goes up (the root is its own
  parent), and any other name must be a directory there: a plain file in its place is
  \<open>NotADirectoryError\<close>, nothing in its place \<open>FileNotFoundError\<close>.
\<close>

fun walk :: "'e world \<Rightarrow> string list \<Rightarrow> string list \<Rightarrow> error + string list" where
  "walk w cur [] = Inr cur"
| "walk w cur (c # cs) =
     (if c = ''.'' then walk w cur cs
      else if c = ''..'' then walk w (butlast cur) cs
      else if cur @ [c] \<in> dirs w then walk w (cur @ [c]) cs
      else if cur @ [c] \<in> files w then Inl NotADirectoryError
      else Inl FileNotFoundError)"

text \<open>
  \<open>os.mkdir(p)\<close>: creates one directory. The empty path names nothing. Every name but
  the last is followed; then the last name must be a new one in a directory that can be
  written: a path that names something that is there already (the root, \<open>.\<close>, \<open>..\<close>,
  a directory or a plain file) is \<open>FileExistsError\<close>.
\<close>

definition os_mkdir :: "string \<Rightarrow> 'e world \<Rightarrow> error + 'e world" where
  "os_mkdir p w =
     (if p = [] then Inl FileNotFoundError
      else if components p = [] then Inl FileExistsError
      else
        (case walk w (start_dir p w) (butlast (components p)) of
           Inl e \<Rightarrow> Inl e
         | Inr parent \<Rightarrow>
             (let c = last (components p) in
              if c = ''.'' \<or> c = ''..'' then Inl FileExistsError
              else if parent @ [c] \<in> dirs w \<or> parent @ [c] \<in> files w then Inl FileExistsError
              else if parent \<in> readonly w then Inl PermissionError
              else Inr (w\<lparr>dirs := insert (parent @ [c]) (dirs w)\<rparr>))))"

text \<open>
  The output-directory idiom of both notebooks:
  \<^verbatim>\<open>
  try: os.mkdir(d)
  except FileExistsError: pass
  \<close>
  A statement returns the exception that left it, if any, and the world it left behind.
\<close>

definition try_mkdir :: "string \<Rightarrow> 'e world \<Rightarrow> error option \<times> 'e world" where
  "try_mkdir d w =
     (case os_mkdir d w of
        Inr w' \<Rightarrow> (None, w')
      | Inl e \<Rightarrow> if e = FileExistsError then (None, w) else (Some e, w))"

definition record_call :: "'e \<Rightarrow> 'e world \<Rightarrow> 'e world" where
  "record_call c w = w\<lparr>calls := calls w @ [c]\<rparr>"

section \<open>The slice exporter (datasets/02\_Cube\_demo.ipynb)\<close>

text \<open>
  The geometry handle, as far as the notebook reads it, and the two entry points of the
  library the notebook calls. What they compute is outside this repository: the model takes
  them as parameters and records each call. \<open>show_slide\<close> answers with the exception it
  raises, if any. The extents \<open>lens\<close> and the slide count \<open>N\<close> are Python integers.
  The list \<open>paths\<close> of the cubes is what the \<open>glob\<close> of the second cell found; the
  progress bars of \<open>tqdm\<close> change nothing a property here speaks of.
\<close>

record geometry =
  short_name :: string
  index_headers :: "string list"
  lens :: "int list"

record slicer =
  SeismicGeometry :: "string \<Rightarrow> error + geometry"
  show_slide :: "geometry \<Rightarrow> int \<Rightarrow> nat \<Rightarrow> bool \<Rightarrow> string \<Rightarrow> error option"

text \<open>
  The sample locations of one axis, as the loop body computes them:
  \<^verbatim>\<open>
  step = length // N
  locs = list(range(step // 3, length, step))
  \<close>
\<close>

definition locs :: "int \<Rightarrow> int \<Rightarrow> error + int list" where
  "locs len N =
     (case floordiv len N of
        Inl e \<Rightarrow> Inl e
      | Inr step \<Rightarrow>
          (case floordiv step 3 of
             Inl e \<Rightarrow> Inl e
           | Inr start \<Rightarrow> py_range start len step))"

text \<open>
  \<^verbatim>\<open>
  for loc in locs:
      save_path = '/'.join((cube_dir, f'{idx}-{loc}.png'))
      geometry.show_slide(loc, axis=i, show=SHOW, savepath=save_path)
  \<close>
\<close>

fun slides_loop ::
  "slicer \<Rightarrow> geometry \<Rightarrow> bool \<Rightarrow> string \<Rightarrow> nat \<Rightarrow> string \<Rightarrow> int list \<Rightarrow>
   'm call world \<Rightarrow> error option \<times> 'm call world" where
  "slides_loop P g SHOW cube_dir i idx [] w = (None, w)"
| "slides_loop P g SHOW cube_dir i idx (loc # rest) w =
     (let save_path = join ''/'' [cube_dir, idx @ ''-'' @ str_int loc @ ''.png''];
          w' = record_call (ShowSlide loc i SHOW save_path) w
      in case show_slide P g loc i SHOW save_path of
           Some e \<Rightarrow> (Some e, w')
         | None \<Rightarrow> slides_loop P g SHOW cube_dir i idx rest w')"

text \<open>
  \<^verbatim>\<open>
  for i, idx in enumerate(geometry.index_headers):
      length = geometry.lens[i]
      step = length // N
      locs = list(range(step // 3, length, step))
      for loc in locs: ...
  \<close>
  The list argument is what is left of \<open>enumerate(geometry.index_headers)\<close>.
\<close>

fun axes_loop ::
  "slicer \<Rightarrow> int \<Rightarrow> geometry \<Rightarrow> bool \<Rightarrow> string \<Rightarrow> (nat \<times> string) list \<Rightarrow>
   'm call world \<Rightarrow> error option \<times> 'm call world" where
  "axes_loop P N g SHOW cube_dir [] w = (None, w)"
| "axes_loop P N g SHOW cube_dir ((i, idx) # rest) w =
     (case getitem (lens g) i of
        Inl e \<Rightarrow> (Some e, w)
      | Inr len \<Rightarrow>
          (case locs len N of
             Inl e \<Rightarrow> (Some e, w)
           | Inr ls \<Rightarrow>
               (case slides_loop P g SHOW cube_dir i idx ls w of
                  (Some e, w') \<Rightarrow> (Some e, w')
                | (None, w') \<Rightarrow> axes_loop P N g SHOW cube_dir rest w')))"

text \<open>
  The body of the loop over the cubes. With \<open>SHOW\<close> set, the notebook prints two banner
  lines and the geometry; the model records the print of the geometry.
\<close>

definition process_cube ::
  "slicer \<Rightarrow> int \<Rightarrow> string \<Rightarrow> bool \<Rightarrow> string \<Rightarrow> 'm call world \<Rightarrow>
   error option \<times> 'm call world" where
  "process_cube P N script_dir SHOW path_cube w =
     (case SeismicGeometry P path_cube of
        Inl e \<Rightarrow> (Some e, w)
      | Inr g \<Rightarrow>
          (let cube_dir = join ''/'' [script_dir, short_name g] in
           case try_mkdir cube_dir w of
             (Some e, w1) \<Rightarrow> (Some e, w1)
           | (None, w1) \<Rightarrow>
               (let w2 = (if SHOW then record_call (PrintGeometry (short_name g)) w1 else w1)
                in axes_loop P N g SHOW cube_dir (enumerate 0 (index_headers g)) w2)))"

fun cubes_loop ::
  "slicer \<Rightarrow> int \<Rightarrow> string \<Rightarrow> bool \<Rightarrow> string list \<Rightarrow> 'm call world \<Rightarrow>
   error option \<times> 'm call world" where
  "cubes_loop P N script_dir SHOW [] w = (None, w)"
| "cubes_loop P N script_dir SHOW (path_cube # rest) w =
     (case process_cube P N script_dir SHOW path_cube w of
        (Some e, w') \<Rightarrow> (Some e, w')
      | (None, w') \<Rightarrow> cubes_loop P N script_dir SHOW rest w')"

text \<open>The notebook: the cell that creates \<open>script_dir\<close>, then the cell with the loop.\<close>

definition cube_demo ::
  "slicer \<Rightarrow> string list \<Rightarrow> int \<Rightarrow> string \<Rightarrow> bool \<Rightarrow> 'm call world \<Rightarrow>
   error option \<times> 'm call world" where
  "cube_demo P paths N script_dir SHOW w =
     (case try_mkdir script_dir w of
        (Some e, w') \<Rightarrow> (Some e, w')
      | (None, w') \<Rightarrow> cubes_loop P N script_dir SHOW paths w')"


section \<open>The metric reporter (the metrics notebook)\<close>

text \<open>
  The settings cell: the metric names, the two parameter presets and the two toggles.
  \<open>notebook_settings\<close> holds the values the notebook is checked in with.
\<close>

record settings =
  metrics :: "string list"
  local_kwargs :: kwargs
  support_kwargs :: kwargs
  ADD_PREFIX :: bool
  SAVE_POINT_CLOUDS :: bool

definition notebook_settings :: settings where
  "notebook_settings =
     \<lparr>metrics = [''support_hellinger'', ''support_corrs''],
      local_kwargs = [(''agg'', PyNone), (''kernel_size'', PyInt 3), (''reduce_func'', PyStr ''mean'')],
      support_kwargs = [(''agg'', PyStr ''mean''), (''supports'', PyInt 20)],
      ADD_PREFIX = True,
      SAVE_POINT_CLOUDS = False\<rparr>"

text \<open>
  The library as the metric reporter calls it. \<open>GeometryMetrics\<close> answers with the
  exception the constructor raises, if any; \<open>evaluate\<close> and \<open>quality_map\<close> stand for
  \<open>gm.evaluate\<close> on the handle bound to the geometry, with the arguments of the call
  recorded in \<open>Evaluate\<close> and \<open>QualityMap\<close>.
\<close>

record 'm evaluator = slicer +
  GeometryMetrics :: "geometry \<Rightarrow> error option"
  evaluate :: "geometry \<Rightarrow> string \<Rightarrow> kwargs \<Rightarrow> bool \<Rightarrow> string \<Rightarrow> error + 'm"
  save_point_cloud :: "'m \<Rightarrow> string \<Rightarrow> geometry \<Rightarrow> error option"
  quality_map :: "geometry \<Rightarrow> 'm list \<Rightarrow> bool \<Rightarrow> string \<Rightarrow> error + 'm"

text \<open>
  \<^verbatim>\<open>
  kwargs = copy(local_kwargs) if metric_name.startswith('local') else copy(support_kwargs)
  \<close>
  A copy of a dictionary is the same list of items.
\<close>

definition select_kwargs :: "settings \<Rightarrow> string \<Rightarrow> kwargs" where
  "select_kwargs S metric_name =
     (if startswith metric_name ''local'' then local_kwargs S else support_kwargs S)"

text \<open>
  \<^verbatim>\<open>
  '|'.join([':'.join([key,str(value)]) for key, value in kwargs.items()])
  \<close>
\<close>

definition param_suffix :: "kwargs \<Rightarrow> string" where
  "param_suffix kwargs =
     join ''|'' (map (\<lambda>(key, value). join '':'' [key, py_str value]) kwargs)"

text \<open>
  A call \<open>f(**kwargs, plot=True, show_plot=..., plot_kwargs=..., savepath=...)\<close> raises
  \<open>TypeError\<close> before \<open>f\<close> runs when \<open>kwargs\<close> holds one of the keywords written out.
\<close>

definition keyword_clash :: "kwargs \<Rightarrow> bool" where
  "keyword_clash kwargs =
     list_ex (\<lambda>(key, value). key \<in> set [''plot'', ''show_plot'', ''plot_kwargs'', ''savepath''])
       kwargs"

text \<open>
  The loop over the metric names:
  \<^verbatim>\<open>
  for metric_name in tqdm(metrics, ncols=600):
      save_path = '/'.join((cube_dir, metric_name))
      kwargs = copy(local_kwargs) if metric_name.startswith('local') else copy(support_kwargs)
      if ADD_PREFIX:
          save_path += '@'
          save_path += '|'.join([':'.join([key,str(value)])
                                 for key, value in kwargs.items()])
      metric = gm.evaluate(metric_name, **kwargs,
                           plot=True, show_plot=SHOW, plot_kwargs=plot_kwargs,
                           savepath=save_path + '.png')
      computed_metrics.append(metric)
      if SAVE_POINT_CLOUDS:
          save_point_cloud(metric, save_path, geometry)
  \<close>
  The loop carries \<open>computed_metrics\<close>, the world, and the notebook's variable \<open>kwargs\<close>,
  which is unbound (\<open>None\<close>) until the loop body binds it and stays bound after the loop.
\<close>

fun metrics_loop ::
  "'m evaluator \<Rightarrow> settings \<Rightarrow> bool \<Rightarrow> geometry \<Rightarrow> string \<Rightarrow> string list \<Rightarrow>
   'm list \<Rightarrow> kwargs option \<Rightarrow> 'm call world \<Rightarrow>
   error option \<times> 'm list \<times> kwargs option \<times> 'm call world" where
  "metrics_loop L S SHOW g cube_dir [] computed_metrics kw w = (None, computed_metrics, kw, w)"
| "metrics_loop L S SHOW g cube_dir (metric_name # rest) computed_metrics kw w =
     (let save_path = join ''/'' [cube_dir, metric_name];
          kwargs = select_kwargs S metric_name;
          save_path = (if ADD_PREFIX S then save_path @ ''@'' @ param_suffix kwargs
                       else save_path)
      in if keyword_clash kwargs then (Some TypeError, computed_metrics, Some kwargs, w)
         else
          (let w1 = record_call (Evaluate metric_name kwargs SHOW (save_path @ ''.png'')) w
           in case evaluate L g metric_name kwargs SHOW (save_path @ ''.png'') of
                Inl e \<Rightarrow> (Some e, computed_metrics, Some kwargs, w1)
              | Inr metric \<Rightarrow>
                  (if SAVE_POINT_CLOUDS S then
                     (let w2 = record_call (SavePointCloud metric save_path) w1
                      in case save_point_cloud L metric save_path g of
                           Some e \<Rightarrow> (Some e, computed_metrics @ [metric], Some kwargs, w2)
                         | None \<Rightarrow>
                             metrics_loop L S SHOW g cube_dir rest
                               (computed_metrics @ [metric]) (Some kwargs) w2)
                   else metrics_loop L S SHOW g cube_dir rest
                          (computed_metrics @ [metric]) (Some kwargs) w1)))"

text \<open>
  The quality map, after the loop:
  \<^verbatim>\<open>
  save_path = '/'.join((cube_dir, 'quality_map'))
  if ADD_PREFIX:
      save_path += '@'
      save_path += '|'.join([':'.join([key,str(value)])
                             for key, value in kwargs.items()])
  quality_map = gm.evaluate('quality_map', quantiles=[0.1], agg=None,
                            computed_metrics=computed_metrics,
                            plot=True, show_plot=SHOW, plot_kwargs=plot_kwargs,
                            savepath=save_path + '.png')
  plt.show()
  \<close>
  Reading \<open>kwargs\<close> while it is unbound raises \<open>NameError\<close>. So does \<open>plt.show()\<close>: the
  notebook never imports or binds \<open>plt\<close>.
\<close>

definition quality_map_step ::
  "'m evaluator \<Rightarrow> settings \<Rightarrow> bool \<Rightarrow> geometry \<Rightarrow> string \<Rightarrow> 'm list \<Rightarrow>
   kwargs option \<Rightarrow> 'm call world \<Rightarrow> error option \<times> 'm call world" where
  "quality_map_step L S SHOW g cube_dir computed_metrics kw w =
     (let save_path = join ''/'' [cube_dir, ''quality_map''] in
      case (if ADD_PREFIX S
            then (case kw of
                    None \<Rightarrow> Inl NameError
                  | Some kwargs \<Rightarrow> Inr (save_path @ ''@'' @ param_suffix kwargs))
            else Inr save_path) of
        Inl e \<Rightarrow> (Some e, w)
      | Inr save_path \<Rightarrow>
          (let w1 = record_call (QualityMap computed_metrics SHOW (save_path @ ''.png'')) w
           in case quality_map L g computed_metrics SHOW (save_path @ ''.png'') of
                Inl e \<Rightarrow> (Some e, w1)
              | Inr qm \<Rightarrow> (Some NameError, w1)))"

text \<open>
  The body of the loop over the cubes:
  \<^verbatim>\<open>
  geometry = SeismicGeometry(path_cube)
  gm = GeometryMetrics(geometry)
  cube_dir = '/'.join((script_dir, geometry.short_name))
  try: os.mkdir(cube_dir)
  except FileExistsError: pass
  if SHOW: ... print(geometry)
  computed_metrics = []
  for metric_name in tqdm(metrics, ncols=600): ...
  ... quality map ...
  \<close>
  It returns the binding of \<open>kwargs\<close> as well, which the next cube would find.
\<close>

definition metrics_cube ::
  "'m evaluator \<Rightarrow> settings \<Rightarrow> string \<Rightarrow> bool \<Rightarrow> string \<Rightarrow> kwargs option \<Rightarrow>
   'm call world \<Rightarrow> error option \<times> kwargs option \<times> 'm call world" where
  "metrics_cube L S script_dir SHOW path_cube kw w =
     (case SeismicGeometry L path_cube of
        Inl e \<Rightarrow> (Some e, kw, w)
      | Inr g \<Rightarrow>
          (case GeometryMetrics L g of
             Some e \<Rightarrow> (Some e, kw, w)
           | None \<Rightarrow>
               (let cube_dir = join ''/'' [script_dir, short_name g] in
                case try_mkdir cube_dir w of
                  (Some e, w1) \<Rightarrow> (Some e, kw, w1)
                | (None, w1) \<Rightarrow>
                    (let w2 = (if SHOW then record_call (PrintGeometry (short_name g)) w1
                               else w1)
                     in case metrics_loop L S SHOW g cube_dir (metrics S) [] kw w2 of
                          (Some e, computed_metrics, kw', w3) \<Rightarrow> (Some e, kw', w3)
                        | (None, computed_metrics, kw', w3) \<Rightarrow>
                            (case quality_map_step L S SHOW g cube_dir computed_metrics kw' w3 of
                               (r, w4) \<Rightarrow> (r, kw', w4))))))"

fun metrics_cubes_loop ::
  "'m evaluator \<Rightarrow> settings \<Rightarrow> string \<Rightarrow> bool \<Rightarrow> string list \<Rightarrow> kwargs option \<Rightarrow>
   'm call world \<Rightarrow> error option \<times> kwargs option \<times> 'm call world" where
  "metrics_cubes_loop L S script_dir SHOW [] kw w = (None, kw, w)"
| "metrics_cubes_loop L S script_dir SHOW (path_cube # rest) kw w =
     (case metrics_cube L S script_dir SHOW path_cube kw w of
        (Some e, kw', w') \<Rightarrow> (Some e, kw', w')
      | (None, kw', w') \<Rightarrow> metrics_cubes_loop L S script_dir SHOW rest kw' w')"

text \<open>
  The notebook, run in a fresh kernel: the cell that creates \<open>script_dir\<close>, then the
  cell with the loop.
\<close>

definition cube_metrics ::
  "'m evaluator \<Rightarrow> settings \<Rightarrow> string list \<Rightarrow> string \<Rightarrow> bool \<Rightarrow> 'm call world \<Rightarrow>
   error option \<times> 'm call world" where
  "cube_metrics L S paths script_dir SHOW w =
     (case try_mkdir script_dir w of
        (Some e, w') \<Rightarrow> (Some e, w')
      | (None, w') \<Rightarrow>
          (case metrics_cubes_loop L S script_dir SHOW paths None w' of
             (r, kw, w'') \<Rightarrow> (r, w'')))"


section \<open>The iterative-results summarizer (models/Carcass\_interpolation/02\_Iterative\_results.ipynb)\<close>

subsection \<open>Tables\<close>

text \<open>
  A pandas table as far as the notebook uses one: the names of the index levels, one index
  key per row (a tuple with one value per level), the column labels, and one row of cells
  per key. A cell holds a Python list of numbers (the per-iteration sequences), a text, an
  integer, a number, or is missing. \<open>'v\<close> is the type of the numbers. A column label is
  a text or, in the table that \<open>apply(pd.Series)\<close> builds, a position.
\<close>

datatype 'v cell = Floats "'v list" | Str string | IntVal int | Num 'v | NaN

datatype label = Name string | Pos nat

record 'v frame =
  level_names :: "label option list"
  row_keys :: "'v cell list list"
  col_labels :: "label list"
  cells :: "'v cell list list"

fun find_col :: "label \<Rightarrow> label list \<Rightarrow> nat option" where
  "find_col c [] = None"
| "find_col c (x # xs) = (if x = c then Some 0 else map_option Suc (find_col c xs))"

fun positions :: "label list \<Rightarrow> label list \<Rightarrow> error + nat list" where
  "positions [] cols = Inr []"
| "positions (c # cs) cols =
     (case find_col c cols of
        None \<Rightarrow> Inl KeyError
      | Some k \<Rightarrow> (case positions cs cols of Inl e \<Rightarrow> Inl e | Inr ks \<Rightarrow> Inr (k # ks)))"

definition cell_at :: "'v cell list \<Rightarrow> nat \<Rightarrow> 'v cell" where
  "cell_at row k = (if k < length row then row ! k else NaN)"

text \<open>\<open>df[c]\<close>: the values of one column (the series keeps the keys of \<open>df\<close>).\<close>

definition getitem_col :: "'v frame \<Rightarrow> label \<Rightarrow> error + 'v cell list" where
  "getitem_col F c =
     (case find_col c (col_labels F) of
        None \<Rightarrow> Inl KeyError
      | Some k \<Rightarrow> Inr (map (\<lambda>row. cell_at row k) (cells F)))"

text \<open>\<open>df[[c1, ..., cn]]\<close>: the table of the listed columns, in the listed order.\<close>

definition getitem_cols :: "'v frame \<Rightarrow> label list \<Rightarrow> error + 'v frame" where
  "getitem_cols F cs =
     (case positions cs (col_labels F) of
        Inl e \<Rightarrow> Inl e
      | Inr ks \<Rightarrow> Inr (F\<lparr>col_labels := cs, cells := map (\<lambda>row. map (cell_at row) ks) (cells F)\<rparr>))"

text \<open>\<open>series.apply(f)\<close>: \<open>f\<close> on every value in turn, up to the first exception.\<close>

fun apply_each :: "('a \<Rightarrow> error + 'b) \<Rightarrow> 'a list \<Rightarrow> error + 'b list" where
  "apply_each f [] = Inr []"
| "apply_each f (x # xs) =
     (case f x of
        Inl e \<Rightarrow> Inl e
      | Inr y \<Rightarrow> (case apply_each f xs of Inl e \<Rightarrow> Inl e | Inr ys \<Rightarrow> Inr (y # ys)))"

text \<open>
  \<open>df[c] = series\<close>, for a series with the keys of \<open>df\<close>: the column is replaced if
  \<open>df\<close> has it and appended otherwise.
\<close>

definition setitem_col :: "'v frame \<Rightarrow> label \<Rightarrow> 'v cell list \<Rightarrow> 'v frame" where
  "setitem_col F c vals =
     (case find_col c (col_labels F) of
        Some k \<Rightarrow> F\<lparr>cells := map2 (\<lambda>row v. row[k := v]) (cells F) vals\<rparr>
      | None \<Rightarrow> F\<lparr>col_labels := col_labels F @ [c],
                  cells := map2 (\<lambda>row v. row @ [v]) (cells F) vals\<rparr>)"

text \<open>
  \<open>df.reset_index()\<close>: the index levels become the first columns and the rows are
  numbered from 0. A level without a name is called \<open>index\<close> (\<open>level_0\<close> if there is
  a column \<open>index\<close> already) when it is the only level, and \<open>level_i\<close> otherwise; a
  level whose label is a column already cannot be inserted (\<open>ValueError\<close>).
\<close>

definition level_label :: "label list \<Rightarrow> nat \<Rightarrow> nat \<Rightarrow> label option \<Rightarrow> label" where
  "level_label cols n i name =
     (case name of
        Some l \<Rightarrow> l
      | None \<Rightarrow>
          if n = 1 then (if Name ''index'' \<in> set cols then Name ''level_0'' else Name ''index'')
          else Name (''level_'' @ str_int (int i)))"

definition reset_index :: "'v frame \<Rightarrow> error + 'v frame" where
  "reset_index F =
     (let n = length (level_names F);
          new = map (\<lambda>(i, name). level_label (col_labels F) n i name)
                  (enumerate 0 (level_names F))
      in if \<not> distinct new \<or> list_ex (\<lambda>l. l \<in> set (col_labels F)) new then Inl ValueError
         else Inr \<lparr>level_names = [None],
                   row_keys = map (\<lambda>i. [IntVal (int i)]) [0..<length (cells F)],
                   col_labels = new @ col_labels F,
                   cells = map2 (\<lambda>key row. key @ row) (row_keys F) (cells F)\<rparr>)"

text \<open>
  \<open>df.set_index([k1, ..., kn])\<close>: the listed columns become the index levels and leave
  the columns.
\<close>

definition set_index :: "'v frame \<Rightarrow> label list \<Rightarrow> error + 'v frame" where
  "set_index F keys =
     (case positions keys (col_labels F) of
        Inl e \<Rightarrow> Inl e
      | Inr ks \<Rightarrow>
          Inr \<lparr>level_names = map Some keys,
               row_keys = map (\<lambda>row. map (cell_at row) ks) (cells F),
               col_labels = filter (\<lambda>c. c \<notin> set keys) (col_labels F),
               cells = map (\<lambda>row. map snd (filter (\<lambda>(c, v). c \<notin> set keys)
                                               (zip (col_labels F) row))) (cells F)\<rparr>)"

text \<open>
  \<open>series.apply(pd.Series)\<close>: every value becomes a row, a list one cell per element and
  anything else a single cell; the columns are the positions, and a shorter row is filled
  with missing cells. For a series without values the result is no table but an empty
  series (\<open>None\<close>).
\<close>

definition to_Series :: "'v cell \<Rightarrow> 'v cell list" where
  "to_Series c = (case c of Floats xs \<Rightarrow> map Num xs | _ \<Rightarrow> [c])"

definition apply_Series :: "'v frame \<Rightarrow> 'v cell list \<Rightarrow> 'v frame option" where
  "apply_Series F vals =
     (if vals = [] then None
      else
        (let rows = map to_Series vals;
             n = foldr (\<lambda>row m. max (length row) m) rows 0
         in Some \<lparr>level_names = level_names F,
                  row_keys = row_keys F,
                  col_labels = map Pos [0..<n],
                  cells = map (\<lambda>row. row @ replicate (n - length row) NaN) rows\<rparr>))"

text \<open>\<open>df.rename(mapper, axis=1)\<close>: the columns the dictionary lists get their new labels.\<close>

definition rename_columns :: "(label \<times> label) list \<Rightarrow> 'v frame \<Rightarrow> 'v frame" where
  "rename_columns mapper F =
     F\<lparr>col_labels := map (\<lambda>c. case map_of mapper c of None \<Rightarrow> c | Some c' \<Rightarrow> c')
                        (col_labels F)\<rparr>"

text \<open>
  \<open>pd.concat((a, b, c), axis=1)\<close> for tables with the same keys in the same order, which
  is how the notebook calls it (all three come from \<open>dff\<close>): the rows side by side.
\<close>

fun concat_columns :: "'v frame \<Rightarrow> 'v frame list \<Rightarrow> 'v frame" where
  "concat_columns F [] = F"
| "concat_columns F (G # Gs) =
     concat_columns
       (F\<lparr>col_labels := col_labels F @ col_labels G,
          cells := map2 (\<lambda>row row'. row @ row') (cells F) (cells G)\<rparr>) Gs"

text \<open>
  \<open>df.sort_index()\<close> for a table whose keys are texts, as the keys that \<open>set_index\<close>
  builds from the two name columns are: the rows in the order of their keys, compared
  level by level and character by character; rows with the same key keep their order.
\<close>

definition key_text :: "'v cell list \<Rightarrow> string list" where
  "key_text key = map (\<lambda>c. case c of Str s \<Rightarrow> s | _ \<Rightarrow> []) key"

definition sort_index :: "'v frame \<Rightarrow> 'v frame" where
  "sort_index F =
     (let rows = sort_key (\<lambda>(key, row). key_text key) (zip (row_keys F) (cells F))
      in F\<lparr>row_keys := map fst rows, cells := map snd rows\<rparr>)"

subsection \<open>The object store\<close>

text \<open>
  The tables live in a store of objects: a variable holds the address of its table, an
  assignment to a column changes the table at that address, and every operation that
  returns a table puts it at a fresh address. A statement returns its value or the
  exception that left it, and the store it left behind.
\<close>

record 'v store =
  frames :: "nat \<Rightarrow> 'v frame option"
  fresh :: nat

type_synonym ('v, 'a) cmd = "'v store \<Rightarrow> (error + 'a) \<times> 'v store"

definition and_then :: "('v, 'a) cmd \<Rightarrow> ('a \<Rightarrow> ('v, 'b) cmd) \<Rightarrow> ('v, 'b) cmd" where
  "and_then m f st = (case m st of (Inl e, st') \<Rightarrow> (Inl e, st') | (Inr x, st') \<Rightarrow> f x st')"

definition lift :: "error + 'a \<Rightarrow> ('v, 'a) cmd" where
  "lift r st = (r, st)"

definition new_frame :: "'v frame \<Rightarrow> ('v, nat) cmd" where
  "new_frame F st = (Inr (fresh st), st\<lparr>frames := (frames st)(fresh st \<mapsto> F), fresh := Suc (fresh st)\<rparr>)"

definition read_frame :: "nat \<Rightarrow> ('v, 'v frame) cmd" where
  "read_frame a st = (case frames st a of None \<Rightarrow> (Inl NameError, st) | Some F \<Rightarrow> (Inr F, st))"

definition write_frame :: "nat \<Rightarrow> 'v frame \<Rightarrow> ('v, unit) cmd" where
  "write_frame a F st = (Inr (), st\<lparr>frames := (frames st)(a \<mapsto> F)\<rparr>)"

subsection \<open>The cells of the notebook\<close>

definition columns :: "label list" where
  "columns = [Name ''coverages'', Name ''window_rates'', Name ''corrs'', Name ''local_corrs'']"

text \<open>\<open>lambda item: item.split('+')[k]\<close>; only a text has \<open>split\<close>.\<close>

definition split_part :: "nat \<Rightarrow> 'v cell \<Rightarrow> error + 'v cell" where
  "split_part k item =
     (case item of
        Str s \<Rightarrow> (case getitem (split CHR ''+'' s) k of Inl e \<Rightarrow> Inl e | Inr piece \<Rightarrow> Inr (Str piece))
      | _ \<Rightarrow> Inl AttributeError)"

text \<open>
  \<open>df[name] = df['cube_and_horizon'].apply(lambda item: item.split('+')[k])\<close>: the table
  of \<open>df\<close> itself gets the column.
\<close>

definition add_name_column :: "nat \<Rightarrow> label \<Rightarrow> nat \<Rightarrow> ('v, unit) cmd" where
  "add_name_column df name k =
     and_then (read_frame df) (\<lambda>D.
     and_then (lift (getitem_col D (Name ''cube_and_horizon''))) (\<lambda>items.
     and_then (lift (apply_each (split_part k) items)) (\<lambda>names.
     and_then (read_frame df) (\<lambda>D'.
     write_frame df (setitem_col D' name names)))))"

text \<open>
  The third cell, with \<open>results.df\<close> at the address \<open>results_df\<close>:
  \<^verbatim>\<open>
  columns = ['coverages', 'window_rates', 'corrs', 'local_corrs']
  df = results.df[columns + ['cube_and_horizon', 'repetition']]

  df['cube_name'] = df['cube_and_horizon'].apply(lambda item: item.split('+')[0])
  df['horizon_name'] = df['cube_and_horizon'].apply(lambda item: item.split('+')[1])

  dff = (df
         .reset_index()
         .set_index(['cube_name', 'horizon_name'])[columns])
  \<close>
  It returns the address of \<open>dff\<close>.
\<close>

definition project_and_index :: "nat \<Rightarrow> ('v, nat) cmd" where
  "project_and_index results_df =
     and_then (read_frame results_df) (\<lambda>R.
     and_then (lift (getitem_cols R (columns @ [Name ''cube_and_horizon'', Name ''repetition'']))) (\<lambda>F.
     and_then (new_frame F) (\<lambda>df.
     and_then (add_name_column df (Name ''cube_name'') 0) (\<lambda>u.
     and_then (add_name_column df (Name ''horizon_name'') 1) (\<lambda>u.
     and_then (read_frame df) (\<lambda>D.
     and_then (lift (reset_index D)) (\<lambda>F1.
     and_then (new_frame F1) (\<lambda>t1.
     and_then (lift (set_index F1 [Name ''cube_name'', Name ''horizon_name''])) (\<lambda>F2.
     and_then (new_frame F2) (\<lambda>t2.
     and_then (lift (getitem_cols F2 columns)) (\<lambda>F3.
     new_frame F3)))))))))))"

text \<open>
  One line of the fifth cell, for a column and the prefix of its new labels:
  \<^verbatim>\<open>
  wr = dff['window_rates'].apply(pd.Series).rename({i : f'window_rate_{i}' for i in range(3)}, axis=1)
  \<close>
  A series has no axis 1: \<open>rename(..., axis=1)\<close> on the empty series that \<open>apply\<close>
  returns for a table without rows raises \<open>ValueError\<close>.
\<close>

definition per_iteration :: "nat \<Rightarrow> label \<Rightarrow> string \<Rightarrow> ('v, nat) cmd" where
  "per_iteration dff column prefix =
     and_then (read_frame dff) (\<lambda>D.
     and_then (lift (getitem_col D column)) (\<lambda>vals.
     case apply_Series D vals of
       None \<Rightarrow> lift (Inl ValueError)
     | Some T \<Rightarrow>
         and_then (new_frame T) (\<lambda>wide.
         and_then (read_frame wide) (\<lambda>W.
         new_frame (rename_columns (map (\<lambda>i. (Pos i, Name (prefix @ str_int (int i)))) [0..<3]) W)))))"

text \<open>
  The fifth cell; it returns the table it displays.
  \<^verbatim>\<open>
  wr = dff['window_rates'].apply(pd.Series).rename({i : f'window_rate_{i}' for i in range(3)}, axis=1)
  cov = dff['coverages'].apply(pd.Series).rename({i : f'coverage_{i}' for i in range(3)}, axis=1)
  corrs = dff['corrs'].apply(pd.Series).rename({i : f'corr_{i}' for i in range(3)}, axis=1)

  pd.concat((wr, cov, corrs), axis=1).sort_index()
  \<close>
\<close>

definition reshape :: "nat \<Rightarrow> ('v, 'v frame) cmd" where
  "reshape dff =
     and_then (per_iteration dff (Name ''window_rates'') ''window_rate_'') (\<lambda>wr.
     and_then (per_iteration dff (Name ''coverages'') ''coverage_'') (\<lambda>cov.
     and_then (per_iteration dff (Name ''corrs'') ''corr_'') (\<lambda>corrs.
     and_then (read_frame wr) (\<lambda>A.
     and_then (read_frame cov) (\<lambda>B.
     and_then (read_frame corrs) (\<lambda>C.
     and_then (new_frame (concat_columns A [B, C])) (\<lambda>wide.
     and_then (read_frame wide) (\<lambda>W.
     and_then (new_frame (sort_index W)) (\<lambda>sorted.
     read_frame sorted)))))))))"

text \<open>The notebook from the third cell on (the fourth cell only displays \<open>dff\<close>).\<close>

definition summarize :: "nat \<Rightarrow> ('v, 'v frame) cmd" where
  "summarize results_df = and_then (project_and_index results_df) reshape"

section \<open>Reading a run\<close>

text \<open>
  For stating what a run did: the path the loop body hands to \<open>gm.evaluate\<close> for a
  metric name as \<open>save_path + '.png'\<close>, the call it makes, and which calls are its calls.
\<close>

definition metric_save_path :: "settings \<Rightarrow> string \<Rightarrow> string \<Rightarrow> string" where
  "metric_save_path S cube_dir metric_name =
     (if ADD_PREFIX S
      then join ''/'' [cube_dir, metric_name] @ ''@'' @ param_suffix (select_kwargs S metric_name)
      else join ''/'' [cube_dir, metric_name])"

definition metric_call :: "settings \<Rightarrow> bool \<Rightarrow> string \<Rightarrow> string \<Rightarrow> 'm call" where
  "metric_call S SHOW cube_dir metric_name =
     Evaluate metric_name (select_kwargs S metric_name) SHOW
       (metric_save_path S cube_dir metric_name @ ''.png'')"

fun is_Evaluate :: "'m call \<Rightarrow> bool" where
  "is_Evaluate (Evaluate metric_name kwargs show_plot savepath) = True"
| "is_Evaluate c = False"

fun is_QualityMap :: "'m call \<Rightarrow> bool" where
  "is_QualityMap (QualityMap computed_metrics show_plot savepath) = True"
| "is_QualityMap c = False"

text \<open>
  What a path names before \<open>os.mkdir\<close> runs: a directory, when all its names can be
  followed; a plain file, when all names but the last can be followed and the last is a
  plain file there.
\<close>

definition names_directory :: "string \<Rightarrow> 'e world \<Rightarrow> bool" where
  "names_directory p w =
     (p \<noteq> [] \<and> (case walk w (start_dir p w) (components p) of Inl e \<Rightarrow> False | Inr t \<Rightarrow> True))"

definition names_file :: "string \<Rightarrow> 'e world \<Rightarrow> bool" where
  "names_file p w =
     (components p \<noteq> [] \<and> last (components p) \<noteq> ''.'' \<and> last (components p) \<noteq> ''..'' \<and>
      (case walk w (start_dir p w) (butlast (components p)) of
         Inl e \<Rightarrow> False
       | Inr parent \<Rightarrow> parent @ [last (components p)] \<in> files w))"

text \<open>
  A statement keeps the objects below an address \<open>n\<close> when, started in a store whose
  fresh addresses begin at \<open>n\<close> or later, it leaves every object below \<open>n\<close> as it was
  and its fresh addresses still begin at \<open>n\<close> or later; \<open>Q\<close> is what it promises about
  the value it returns.
\<close>

definition keeps :: "nat \<Rightarrow> ('v, 'a) cmd \<Rightarrow> ('a \<Rightarrow> bool) \<Rightarrow> bool" where
  "keeps n c Q \<longleftrightarrow>
     (\<forall>st r st'. n \<le> fresh st \<and> c st = (r, st') \<longrightarrow>
        n \<le> fresh st' \<and> (\<forall>a<n. frames st' a = frames st a) \<and> (\<forall>x. r = Inr x \<longrightarrow> Q x))"

text \<open>
  A table is well formed when it has one key per row, every key has one value per index
  level, and every row has one cell per column.
\<close>

definition wf_frame :: "'v frame \<Rightarrow> bool" where
  "wf_frame F \<longleftrightarrow>
     length (row_keys F) = length (cells F) \<and>
     list_all (\<lambda>key. length key = length (level_names F)) (row_keys F) \<and>
     list_all (\<lambda>row. length row = length (col_labels F)) (cells F)"

text \<open>A composite key with exactly one delimiter.\<close>

definition one_delimiter :: "'v cell \<Rightarrow> bool" where
  "one_delimiter item = (case item of Str s \<Rightarrow> count_list s CHR ''+'' = 1 | _ \<Rightarrow> False)"

section \<open>Sample inputs\<close>

text \<open>
  A provider that serves one cube with a long and a short axis and never fails, and a
  working directory in which the output directory of the slice exporter already exists.
\<close>

definition sample_geometry :: geometry where
  "sample_geometry = \<lparr>short_name = ''M'', index_headers = [''INLINE_3D'', ''CROSSLINE_3D''],
     lens = [100, 9]\<rparr>"

definition sample_slicer :: slicer where
  "sample_slicer = \<lparr>SeismicGeometry = (\<lambda>p. Inr sample_geometry),
     show_slide = (\<lambda>g loc axis shw savepath. None)\<rparr>"

definition sample_world :: "nat call world" where
  "sample_world = \<lparr>dirs = {[''cube_demo'']}, files = {}, readonly = {}, cwd = [], calls = []\<rparr>"

text \<open>
  A working directory with nothing in it but a plain file, and one in which the output
  directory of the metric reporter already exists; an evaluator that serves the same cube,
  never fails, and answers each metric with the length of its name.
\<close>

definition fresh_world :: "nat call world" where
  "fresh_world = \<lparr>dirs = {}, files = {[''notes'']}, readonly = {}, cwd = [], calls = []\<rparr>"


definition sample_evaluator :: "nat evaluator" where
  "sample_evaluator =
     \<lparr>SeismicGeometry = (\<lambda>p. Inr sample_geometry),
      show_slide = (\<lambda>g loc axis shw savepath. None),
      GeometryMetrics = (\<lambda>g. None),
      evaluate = (\<lambda>g metric_name kwargs shw savepath. Inr (length metric_name)),
      save_point_cloud = (\<lambda>metric save_path g. None),
      quality_map = (\<lambda>g computed_metrics shw savepath. Inr (sum_list computed_metrics))\<rparr>"

text \<open>
  A results table of two rows with a default index and one column more than the
  summarizer reads, at address 0 of a store that holds nothing else; and a results table
  in which one composite key stands in two rows, for two repetitions of one experiment.
\<close>

definition sample_results :: "int frame" where
  "sample_results =
     \<lparr>level_names = [None],
      row_keys = [[IntVal 0], [IntVal 1]],
      col_labels = [Name ''cube_and_horizon'', Name ''repetition'', Name ''coverages'',
        Name ''window_rates'', Name ''corrs'', Name ''local_corrs'', Name ''name''],
      cells =
        [[Str ''M_cube+t0_J1_anon'', IntVal 0, Floats [1, 2, 3], Floats [4, 5, 6], Floats [7, 8, 9],
          Floats [10, 11, 12], Str ''a''],
         [Str ''M_cube+t0_B_anon'', IntVal 0, Floats [13, 14, 15], Floats [16, 17, 18],
          Floats [19, 20, 21], Floats [22, 23, 24], Str ''b'']]\<rparr>"

definition repeated_results :: "int frame" where
  "repeated_results =
     \<lparr>level_names = [None],
      row_keys = [[IntVal 0], [IntVal 1], [IntVal 2]],
      col_labels = [Name ''cube_and_horizon'', Name ''repetition'', Name ''coverages'',
        Name ''window_rates'', Name ''corrs'', Name ''local_corrs''],
      cells =
        [[Str ''b+y'', IntVal 0, Floats [1], Floats [2], Floats [3], Floats [4]],
         [Str ''a+x'', IntVal 0, Floats [5], Floats [6], Floats [7], Floats [8]],
         [Str ''b+y'', IntVal 1, Floats [9], Floats [10], Floats [11], Floats [12]]]\<rparr>"

definition repeated_store :: "int store" where
  "repeated_store = \<lparr>frames = (\<lambda>a. if a = 0 then Some repeated_results else None), fresh = 1\<rparr>"

definition sample_store :: "int store" where
  "sample_store = \<lparr>frames = (\<lambda>a. if a = 0 then Some sample_results else None), fresh = 1\<rparr>"

section \<open>Properties of the slice exporter\<close>

declare range_up.simps [simp del] range_down.simps [simp del]

lemma range_up_map:
  "range_up i stop step = map (\<lambda>k. i + int k * step) [0..<length (range_up i stop step)]"
proof (induction i stop step rule: range_up.induct)
  case (1 i stop step)
  show ?case
  proof (cases "0 < step \<and> i < stop")
    case True
    let ?r = "range_up (i + step) stop step"
    have eq: "range_up i stop step = i # ?r" using True by (simp add: range_up.simps)
    have "?r = map (\<lambda>k. (i + step) + int k * step) [0..<length ?r]" using 1 True by simp
    also have "\<dots> = map (\<lambda>k. i + int (Suc k) * step) [0..<length ?r]"
      by (simp add: algebra_simps)
    finally have r: "?r = map (\<lambda>k. i + int (Suc k) * step) [0..<length ?r]" .
    have "map (\<lambda>k. i + int k * step) [0..<Suc (length ?r)] = i # map (\<lambda>k. i + int (Suc k) * step) [0..<length ?r]"
      by (simp add: upt_conv_Cons map_Suc_upt[symmetric] del: upt_Suc)
    then show ?thesis using eq r by simp
  next
    case False
    then show ?thesis by (simp add: range_up.simps)
  qed
qed

lemma range_up_below: "x \<in> set (range_up i stop step) \<Longrightarrow> x < stop"
proof (induction i stop step rule: range_up.induct)
  case (1 i stop step)
  then show ?case by (cases "0 < step \<and> i < stop") (auto simp: range_up.simps[of i stop step])
qed

lemma range_up_maximal: "0 < step \<Longrightarrow> stop \<le> i + int (length (range_up i stop step)) * step"
proof (induction i stop step rule: range_up.induct)
  case (1 i stop step)
  then show ?case by (cases "i < stop") (auto simp: range_up.simps[of i stop step] algebra_simps)
qed

lemma range_down_empty: "i \<le> stop \<Longrightarrow> range_down i stop step = []"
  by (simp add: range_down.simps[of i stop step])

lemma locs_cases:
  assumes "locs E N = Inr xs"
  shows "N \<noteq> 0 \<and> E div N \<noteq> 0 \<and>
         xs = (if 0 < E div N then range_up ((E div N) div 3) E (E div N)
               else range_down ((E div N) div 3) E (E div N))"
  using assms by (auto simp: locs_def floordiv_def py_range_def split: if_splits)

lemma locs_zero_step:
  assumes "0 \<le> E" "E < N"
  shows "E div N = 0" "locs E N = Inl ValueError"
proof -
  show z: "E div N = 0" using assms by (simp add: div_pos_pos_trivial)
  have "N \<noteq> 0" using assms by simp
  then show "locs E N = Inl ValueError" using z by (simp add: locs_def floordiv_def py_range_def)
qed

lemma range_up_length:
  "0 < step \<Longrightarrow> i \<le> stop \<Longrightarrow> int (length (range_up i stop step)) = (stop - i + step - 1) div step"
proof (induction i stop step rule: range_up.induct)
  case (1 i stop step)
  show ?case
  proof (cases "i < stop")
    case True
    show ?thesis
    proof (cases "i + step \<le> stop")
      case True
      have "int (length (range_up (i + step) stop step)) = (stop - (i + step) + step - 1) div step"
        using 1 True \<open>i < stop\<close> by simp
      moreover have "(stop - i + step - 1) div step = (stop - (i + step) + step - 1) div step + 1"
      proof -
        define a where "a = stop - (i + step) + step - 1"
        have "stop - i + step - 1 = a + step" by (simp add: a_def)
        then have "(stop - i + step - 1) div step = (a + step) div step" by (simp only:)
        also have "\<dots> = a div step + 1" using 1(2) by (intro div_add_self2) simp
        finally show ?thesis by (simp only: a_def)
      qed
      ultimately show ?thesis using \<open>i < stop\<close> 1(2) by (simp add: range_up.simps[of i stop step])
    next
      case False
      then have e: "range_up (i + step) stop step = []" by (simp add: range_up.simps[of "i+step"])
      have b: "0 \<le> stop - i - 1" "stop - i - 1 < step" using False True by auto
      have "(stop - i - 1 + step) div step = 1"
      proof -
        have "step \<noteq> 0" using 1(2) by simp
        then have "(stop - i - 1 + step) div step = (stop - i - 1) div step + 1"
          by (rule div_add_self2)
        moreover have "(stop - i - 1) div step = 0"
          using b by (rule div_pos_pos_trivial)
        ultimately show ?thesis by simp
      qed
      then have "(stop - i + step - 1) div step = 1" by (simp add: algebra_simps)
      then show ?thesis using e True 1(2) by (simp add: range_up.simps[of i stop step])
    qed
  next
    case False
    then have "i = stop" using 1 by simp
    then show ?thesis using 1(2) by (simp add: range_up.simps[of stop stop step])
  qed
qed

lemma locs_length:
  assumes N: "0 < N" "N \<le> E"
  shows "\<exists>xs. locs E N = Inr xs \<and> N \<le> int (length xs) \<and>
           (int (length xs) = N \<longleftrightarrow> E mod N \<le> (E div N) div 3)"
proof -
  let ?step = "E div N" and ?r = "E mod N"
  let ?s = "?step div 3"
  have step: "0 < ?step" using N by (simp add: pos_imp_zdiv_pos_iff)
  have s: "0 \<le> ?s" "?s < ?step" using step by auto
  have r: "0 \<le> ?r" using N by simp
  have E: "E = ?r + N * ?step" by simp
  have "1 * ?step \<le> N * ?step" using N step by (intro mult_right_mono) auto
  then have sE: "?s \<le> E" using s r E by linarith
  define a where "a = ?r - ?s + ?step - 1"
  define q where "q = a div ?step"
  have len: "int (length (range_up ?s E ?step)) = (E - ?s + ?step - 1) div ?step"
    using step sE by (rule range_up_length)
  have "E - ?s + ?step - 1 = a + N * ?step" unfolding a_def using E by linarith
  then have "(E - ?s + ?step - 1) div ?step = (a + N * ?step) div ?step" by (simp only:)
  also have "\<dots> = N + a div ?step" using step by (intro div_mult_self1) simp
  finally have "(E - ?s + ?step - 1) div ?step = q + N" by (simp add: q_def)
  then have len': "int (length (range_up ?s E ?step)) = N + q" using len by simp
  have nn: "0 \<le> a" unfolding a_def using r s by linarith
  then have q0: "0 \<le> q" unfolding q_def using step by (simp add: pos_imp_zdiv_nonneg_iff)
  have qz: "q = 0 \<longleftrightarrow> ?r \<le> ?s"
  proof
    assume "q = 0"
    then have "a mod ?step = a" using div_mult_mod_eq[of a ?step] unfolding q_def by simp
    then have "a < ?step" using pos_mod_bound[OF step, of a] by simp
    then show "?r \<le> ?s" unfolding a_def by linarith
  next
    assume "?r \<le> ?s"
    then have "a < ?step" unfolding a_def by linarith
    then show "q = 0" unfolding q_def using nn by (simp add: div_pos_pos_trivial)
  qed
  have "locs E N = Inr (range_up ?s E ?step)"
    using N step by (simp add: locs_def floordiv_def py_range_def)
  then show ?thesis using len' q0 qz by auto
qed

lemma locs_ok_ge:
  assumes "locs E N = Inr xs" "0 \<le> E"
  shows "N \<le> E"
proof (rule ccontr)
  assume "\<not> N \<le> E"
  then have "locs E N = Inl ValueError" using assms(2) locs_zero_step(2) by simp
  then show False using assms(1) by simp
qed

lemma axes_loop_ok:
  "axes_loop P N g SHOW cube_dir axes w = (None, w') \<Longrightarrow> (i, idx) \<in> set axes \<Longrightarrow>
   i < length (lens g) \<and> (\<exists>ls. locs (lens g ! i) N = Inr ls)"
proof (induction axes arbitrary: w)
  case Nil
  then show ?case by simp
next
  case (Cons a axes)
  obtain j jdx where a: "a = (j, jdx)" by (cases a)
  from Cons.prems(1) obtain len ls w1 where
    g: "getitem (lens g) j = Inr len" and l: "locs len N = Inr ls" and
    r: "axes_loop P N g SHOW cube_dir axes w1 = (None, w')"
    unfolding a by (auto split: sum.splits prod.splits option.splits)
  from g have j: "j < length (lens g)" "len = lens g ! j"
    by (auto simp: getitem_def split: if_splits)
  show ?case
  proof (cases "(i, idx) = a")
    case True
    then show ?thesis using a j l by auto
  next
    case False
    then have "(i, idx) \<in> set axes" using Cons.prems(2) by simp
    then show ?thesis using Cons.IH r by blast
  qed
qed

lemma process_cube_ok:
  assumes g: "SeismicGeometry P path_cube = Inr g"
    and nonneg: "\<forall>E \<in> set (lens g). 0 \<le> E"
    and run: "process_cube P N script_dir SHOW path_cube w = (None, w')"
    and i: "i < length (index_headers g)"
  shows "i < length (lens g) \<and> N \<le> lens g ! i"
proof -
  from g run obtain w2 where
    r: "axes_loop P N g SHOW (join ''/'' [script_dir, short_name g])
          (enumerate 0 (index_headers g)) w2 = (None, w')"
    by (auto simp: process_cube_def Let_def split: prod.splits option.splits)
  have "(i, index_headers g ! i) \<in> set (enumerate 0 (index_headers g))"
    using i by (simp add: in_set_enumerate_eq)
  from axes_loop_ok[OF r this] obtain ls where
    il: "i < length (lens g)" and l: "locs (lens g ! i) N = Inr ls" by blast
  have "0 \<le> lens g ! i" using nonneg il by simp
  then have "N \<le> lens g ! i" using l locs_ok_ge by blast
  then show ?thesis using il by simp
qed

lemma locs_generated:
  assumes E: "0 \<le> E" and l: "locs E N = Inr xs"
  shows "xs = map (\<lambda>k. (E div N) div 3 + int k * (E div N)) [0..<length xs] \<and>
         (\<forall>x \<in> set xs. x < E) \<and>
         (0 < E div N \<longrightarrow> E \<le> (E div N) div 3 + int (length xs) * (E div N))"
proof -
  note c = locs_cases[OF l]
  let ?step = "E div N"
  have xs: "xs = range_up (?step div 3) E ?step"
  proof (cases "0 < ?step")
    case True
    then show ?thesis using c by simp
  next
    case False
    then have neg: "?step < 0" using c by simp
    then have "?step div 3 < 0" by simp
    then have "?step div 3 \<le> E" using E by simp
    then have "xs = []" using c False by (simp add: range_down_empty)
    moreover have "range_up (?step div 3) E ?step = []"
      using False by (simp add: range_up.simps[of _ E ?step])
    ultimately show ?thesis by simp
  qed
  have "xs = map (\<lambda>k. ?step div 3 + int k * ?step) [0..<length xs]"
    unfolding xs by (rule range_up_map)
  moreover have "\<forall>x \<in> set xs. x < E" unfolding xs by (auto dest: range_up_below)
  moreover have "0 < ?step \<longrightarrow> E \<le> ?step div 3 + int (length xs) * ?step"
    unfolding xs by (auto intro: range_up_maximal)
  ultimately show ?thesis by blast
qed

lemma locs_total:
  assumes N: "0 < N" "N \<le> E"
  shows "\<exists>xs. locs E N = Inr xs \<and> xs \<noteq> [] \<and> hd xs = (E div N) div 3 \<and>
           xs = map (\<lambda>k. (E div N) div 3 + int k * (E div N)) [0..<length xs] \<and>
           (\<forall>x \<in> set xs. x < E) \<and>
           E \<le> (E div N) div 3 + int (length xs) * (E div N)"
proof -
  from locs_length[OF N] obtain xs where
    l: "locs E N = Inr xs" and n: "N \<le> int (length xs)" by blast
  have ne: "xs \<noteq> []" using n N(1) by auto
  have step: "0 < E div N" using N by (simp add: pos_imp_zdiv_pos_iff)
  have E: "0 \<le> E" using N by simp
  from locs_generated[OF E l] step have
    m: "xs = map (\<lambda>k. (E div N) div 3 + int k * (E div N)) [0..<length xs]" and
    b: "\<forall>x \<in> set xs. x < E" and
    t: "E \<le> (E div N) div 3 + int (length xs) * (E div N)"
    by blast+
  have "xs ! 0 = map (\<lambda>k. (E div N) div 3 + int k * (E div N)) [0..<length xs] ! 0"
    by (rule arg_cong[where f = "\<lambda>l. l ! 0", OF m])
  also have "\<dots> = (E div N) div 3" using ne by simp
  finally have "hd xs = (E div N) div 3" using ne by (simp add: hd_conv_nth)
  then show ?thesis using l ne m b t by blast
qed

text \<open>
  C1. For an axis of extent \<open>E\<close> and a slide count \<open>N\<close> with \<open>0 < N \<le> E\<close> the sample
  locations are generated, and they are the arithmetic progression that starts at
  \<open>(E // N) // 3\<close> and has stride \<open>E // N\<close>, up to but not including \<open>E\<close>: there is a
  first location, it is \<open>(E // N) // 3\<close>, every location is below \<open>E\<close>, and the
  progression stops only where its next element would reach \<open>E\<close>. Whenever locations are
  generated at all for an extent \<open>E \<ge> 0\<close>, they are this progression. For \<open>E = 100\<close>
  and \<open>N = 5\<close> the locations are \<open>[6, 26, 46, 66, 86]\<close>.
\<close>

theorem locs_progression:
  "locs 100 5 = Inr [6, 26, 46, 66, 86] \<and>
   (0 < N \<and> N \<le> E \<longrightarrow>
      (\<exists>ys. locs E N = Inr ys \<and> ys \<noteq> [] \<and> hd ys = (E div N) div 3 \<and>
         ys = map (\<lambda>k. (E div N) div 3 + int k * (E div N)) [0..<length ys] \<and>
         (\<forall>x \<in> set ys. x < E) \<and>
         E \<le> (E div N) div 3 + int (length ys) * (E div N))) \<and>
   (0 \<le> E \<and> locs E N = Inr xs \<longrightarrow>
      xs = map (\<lambda>k. (E div N) div 3 + int k * (E div N)) [0..<length xs] \<and>
      (\<forall>x \<in> set xs. x < E) \<and>
      (0 < E div N \<longrightarrow> E \<le> (E div N) div 3 + int (length xs) * (E div N)))"
proof (intro conjI)
  show "locs 100 5 = Inr [6, 26, 46, 66, 86]" by code_simp
next
  show "0 < N \<and> N \<le> E \<longrightarrow>
      (\<exists>ys. locs E N = Inr ys \<and> ys \<noteq> [] \<and> hd ys = (E div N) div 3 \<and>
         ys = map (\<lambda>k. (E div N) div 3 + int k * (E div N)) [0..<length ys] \<and>
         (\<forall>x \<in> set ys. x < E) \<and>
         E \<le> (E div N) div 3 + int (length ys) * (E div N))"
    using locs_total[of N E] by blast
next
  show "0 \<le> E \<and> locs E N = Inr xs \<longrightarrow>
      xs = map (\<lambda>k. (E div N) div 3 + int k * (E div N)) [0..<length xs] \<and>
      (\<forall>x \<in> set xs. x < E) \<and>
      (0 < E div N \<longrightarrow> E \<le> (E div N) div 3 + int (length xs) * (E div N))"
    using locs_generated[of E N xs] by blast
qed

theorem locs_progression_witness:
  "(0::int) < 5 \<and> (5::int) \<le> 107 \<and> locs 107 5 = Inr [7, 28, 49, 70, 91] \<and>
   hd [7, 28, 49, 70, 91 :: int] = (107 div 5) div 3 \<and>
   [7, 28, 49, 70, 91] = map (\<lambda>k. (107 div 5) div 3 + int k * (107 div 5)) [0..<length [7, 28, 49, 70, 91 :: int]] \<and>
   list_all (\<lambda>x. x < 107) [7, 28, 49, 70, 91 :: int] \<and>
   (107::int) \<le> (107 div 5) div 3 + int (length [7, 28, 49, 70, 91 :: int]) * (107 div 5)"
proof -
  have l: "locs 107 5 = Inr [7, 28, 49, 70, 91]" by code_simp
  have h: "(0::int) < 5 \<and> (5::int) \<le> 107" by simp
  from locs_progression [where N = 5 and E = 107 and xs = "[7, 28, 49, 70, 91]"] h
  obtain ys where ys: "locs 107 5 = Inr ys" "hd ys = (107 div 5) div 3"
    "ys = map (\<lambda>k. (107 div 5) div 3 + int k * (107 div 5)) [0..<length ys]"
    "\<forall>x \<in> set ys. x < 107"
    "107 \<le> (107 div 5) div 3 + int (length ys) * (107 div 5)"
    by blast
  have e: "ys = [7, 28, 49, 70, 91]" using ys(1) l by simp
  show ?thesis using h l ys(2-5) unfolding e by (simp add: list_all_iff)
qed

text \<open>
  C2. The number of locations is not always the slide count: an axis of extent 9 with
  \<open>N = 5\<close> has stride 1 and offset 0 and gets nine locations, and an axis of extent 59
  has stride 11 and offset 3 and gets six. (\<open>locs_length\<close> above says when the count is
  \<open>N\<close>, for \<open>0 < N \<le> E\<close>: exactly when \<open>E mod N \<le> (E // N) // 3\<close>; otherwise
  there are more.)
\<close>

theorem locs_count_exceeds_N:
  "locs 9 5 = Inr [0, 1, 2, 3, 4, 5, 6, 7, 8] \<and>
   length [0, 1, 2, 3, 4, 5, 6, 7, 8 :: int] \<noteq> 5 \<and>
   locs 59 5 = Inr [3, 14, 25, 36, 47, 58] \<and>
   length [3, 14, 25, 36, 47, 58 :: int] \<noteq> 5"
  by code_simp

text \<open>
  C9. On an axis whose extent \<open>E\<close> is below the slide count \<open>N\<close> the stride \<open>E // N\<close> is
  zero and generating the locations raises \<open>ValueError\<close>; so when the exporter finishes a
  cube without an exception, every axis it went through has an extent of at least \<open>N\<close>.
\<close>

theorem zero_step_fails:
  "(0 \<le> E \<and> E < N \<longrightarrow> E div N = 0 \<and> locs E N = Inl ValueError) \<and>
   (SeismicGeometry P path_cube = Inr g \<and> (\<forall>E \<in> set (lens g). 0 \<le> E) \<and>
    process_cube P N script_dir SHOW path_cube w = (None, w') \<longrightarrow>
      (\<forall>i < length (index_headers g). i < length (lens g) \<and> N \<le> lens g ! i))"
  using locs_zero_step [of E N] process_cube_ok [of P path_cube g N script_dir SHOW w w']
  by blast

theorem zero_step_fails_witness:
  "(0::int) \<le> 4 \<and> (4::int) < 5 \<and> (4::int) div 5 = 0 \<and> locs 4 5 = Inl ValueError \<and>
   SeismicGeometry sample_slicer ''amplitudes.hdf5'' = Inr sample_geometry \<and>
   list_all (\<lambda>E. 0 \<le> E) (lens sample_geometry) \<and>
   fst (process_cube sample_slicer 5 ''cube_demo'' False ''amplitudes.hdf5'' sample_world) = None \<and>
   length (index_headers sample_geometry) = 2 \<and>
   5 \<le> lens sample_geometry ! 0 \<and> 5 \<le> lens sample_geometry ! 1"
proof -
  let ?run = "process_cube sample_slicer 5 ''cube_demo'' False ''amplitudes.hdf5'' sample_world"
  have ok: "fst ?run = None" by code_simp
  then have run: "?run = (None, snd ?run)" by (simp add: prod_eq_iff)
  have g: "SeismicGeometry sample_slicer ''amplitudes.hdf5'' = Inr sample_geometry"
    by (simp add: sample_slicer_def)
  have nonneg: "\<forall>E \<in> set (lens sample_geometry). 0 \<le> E"
    by (simp add: sample_geometry_def)
  have n: "length (index_headers sample_geometry) = 2" by (simp add: sample_geometry_def)
  from zero_step_fails [of 4 5 sample_slicer "''amplitudes.hdf5''" sample_geometry
      "''cube_demo''" False sample_world "snd ?run"] g nonneg run n
  have "(4::int) div 5 = 0 \<and> locs 4 5 = Inl ValueError \<and>
        5 \<le> lens sample_geometry ! 0 \<and> 5 \<le> lens sample_geometry ! 1"
    by simp
  then show ?thesis using ok g nonneg n by (simp add: list_all_iff)
qed

section \<open>Properties of the output directories\<close>

lemma walk_append:
  "walk w cur (xs @ ys) = (case walk w cur xs of Inl e \<Rightarrow> Inl e | Inr t \<Rightarrow> walk w t ys)"
  by (induction xs arbitrary: cur) auto

lemma walk_mono:
  "walk w cur cs = Inr t \<Longrightarrow> walk (w\<lparr>dirs := insert d (dirs w)\<rparr>) cur cs = Inr t"
  by (induction cs arbitrary: cur) (auto split: if_splits)

lemma os_mkdir_Inr:
  assumes "os_mkdir p w = Inr w'"
  shows "\<exists>parent. p \<noteq> [] \<and> components p \<noteq> [] \<and>
           walk w (start_dir p w) (butlast (components p)) = Inr parent \<and>
           last (components p) \<noteq> ''.'' \<and> last (components p) \<noteq> ''..'' \<and>
           w' = w\<lparr>dirs := insert (parent @ [last (components p)]) (dirs w)\<rparr>"
  using assms by (auto simp: os_mkdir_def Let_def split: if_splits sum.splits)

lemma components_Nil: "components [] = []"
  by (simp add: components_def)

lemma os_mkdir_exists_iff:
  "os_mkdir p w = Inl FileExistsError \<longleftrightarrow> names_directory p w \<or> names_file p w"
proof (cases "p = [] \<or> components p = []")
  case True
  then show ?thesis
  proof
    assume "p = []"
    then show ?thesis
      by (simp add: os_mkdir_def names_directory_def names_file_def components_Nil)
  next
    assume "components p = []"
    then show ?thesis
      by (auto simp: os_mkdir_def names_directory_def names_file_def components_Nil)
  qed
next
  case False
  then have ne: "p \<noteq> []" "components p \<noteq> []" by auto
  let ?cs = "components p" and ?s = "start_dir p w"
  have cs: "?cs = butlast ?cs @ [last ?cs]" using ne by simp
  have w: "walk w ?s ?cs =
    (case walk w ?s (butlast ?cs) of Inl e \<Rightarrow> Inl e | Inr t \<Rightarrow> walk w t [last ?cs])"
    using walk_append[of w ?s "butlast ?cs" "[last ?cs]"] cs by simp
  show ?thesis
  proof (cases "walk w ?s (butlast ?cs)")
    case (Inl e)
    have "e \<noteq> FileExistsError"
    proof -
      have "\<And>cur cs e. walk w cur cs = Inl e \<Longrightarrow> e \<noteq> FileExistsError"
      proof -
        fix cur cs e show "walk w cur cs = Inl e \<Longrightarrow> e \<noteq> FileExistsError"
          by (induction cs arbitrary: cur) (auto split: if_splits)
      qed
      then show ?thesis using Inl by blast
    qed
    then show ?thesis using Inl ne w
      by (auto simp: os_mkdir_def names_directory_def names_file_def)
  next
    case (Inr parent)
    then show ?thesis using ne w
      by (auto simp: os_mkdir_def names_directory_def names_file_def Let_def)
  qed
qed

lemma os_mkdir_creates:
  assumes "os_mkdir p w = Inr w'"
  shows "names_directory p w' \<and> \<not> names_directory p w \<and> \<not> names_file p w"
proof -
  from os_mkdir_Inr[OF assms] obtain parent where
    p: "p \<noteq> []" "components p \<noteq> []"
       "walk w (start_dir p w) (butlast (components p)) = Inr parent"
       "last (components p) \<noteq> ''.''" "last (components p) \<noteq> ''..''"
       "w' = w\<lparr>dirs := insert (parent @ [last (components p)]) (dirs w)\<rparr>"
    by blast
  let ?cs = "components p"
  have cs: "?cs = butlast ?cs @ [last ?cs]" using p(2) by simp
  have s: "start_dir p w' = start_dir p w" by (simp add: start_dir_def p(6))
  have b: "walk w' (start_dir p w') (butlast ?cs) = Inr parent"
    using walk_mono[OF p(3), of "parent @ [last ?cs]"] p(6) s by simp
  have "walk w' (start_dir p w') (butlast ?cs @ [last ?cs]) = Inr (parent @ [last ?cs])"
    unfolding walk_append b using p(4,5) by (simp add: p(6))
  then have "walk w' (start_dir p w') ?cs = Inr (parent @ [last ?cs])" using cs by simp
  then have 1: "names_directory p w'" using p(1) by (simp add: names_directory_def)
  have "os_mkdir p w \<noteq> Inl FileExistsError" using assms by simp
  then have 2: "\<not> names_directory p w \<and> \<not> names_file p w"
    using os_mkdir_exists_iff[of p w] by blast
  show ?thesis using 1 2 by blast
qed

lemma try_mkdir_exists:
  "names_directory d w \<or> names_file d w \<Longrightarrow> try_mkdir d w = (None, w)"
  using os_mkdir_exists_iff[of d w] by (simp add: try_mkdir_def)

lemma try_mkdir_twice: "try_mkdir d w = (None, w') \<Longrightarrow> try_mkdir d w' = (None, w')"
proof (cases "os_mkdir d w")
  case (Inl e)
  assume "try_mkdir d w = (None, w')"
  then show ?thesis using Inl by (auto simp: try_mkdir_def split: if_splits)
next
  case (Inr w1)
  assume "try_mkdir d w = (None, w')"
  then have w': "w' = w1" using Inr by (simp add: try_mkdir_def)
  from os_mkdir_Inr[OF Inr] obtain parent where
    p: "d \<noteq> []" "components d \<noteq> []"
       "walk w (start_dir d w) (butlast (components d)) = Inr parent"
       "last (components d) \<noteq> ''.''" "last (components d) \<noteq> ''..''"
       "w1 = w\<lparr>dirs := insert (parent @ [last (components d)]) (dirs w)\<rparr>"
    by blast
  have "start_dir d w1 = start_dir d w" by (simp add: start_dir_def p(6))
  then have "walk w1 (start_dir d w1) (butlast (components d)) = Inr parent"
    using walk_mono[OF p(3), of "parent @ [last (components d)]"] p(6) by simp
  then have "os_mkdir d w1 = Inl FileExistsError"
    using p by (simp add: os_mkdir_def Let_def)
  then show ?thesis using w' by (simp add: try_mkdir_def)
qed

lemma try_mkdir_propagates:
  "os_mkdir d w = Inl e \<Longrightarrow> e \<noteq> FileExistsError \<Longrightarrow> try_mkdir d w = (Some e, w)"
  by (simp add: try_mkdir_def)

lemma try_mkdir_only_exists:
  "try_mkdir d w = (None, w') \<Longrightarrow>
   os_mkdir d w = Inr w' \<or> (os_mkdir d w = Inl FileExistsError \<and> w' = w)"
  by (auto simp: try_mkdir_def split: sum.splits if_splits)


lemma cube_demo_mkdir_fails:
  "os_mkdir script_dir w = Inl e \<Longrightarrow> e \<noteq> FileExistsError \<Longrightarrow>
   cube_demo P paths N script_dir SHOW w = (Some e, w)"
  by (simp add: cube_demo_def try_mkdir_def)

lemma cube_metrics_mkdir_fails:
  "os_mkdir script_dir w = Inl e \<Longrightarrow> e \<noteq> FileExistsError \<Longrightarrow>
   cube_metrics L S paths script_dir SHOW w = (Some e, w)"
  by (simp add: cube_metrics_def try_mkdir_def)

lemma process_cube_mkdir_fails:
  "SeismicGeometry P path_cube = Inr g \<Longrightarrow>
   os_mkdir (join ''/'' [script_dir, short_name g]) w = Inl e \<Longrightarrow> e \<noteq> FileExistsError \<Longrightarrow>
   process_cube P N script_dir SHOW path_cube w = (Some e, w)"
  by (simp add: process_cube_def Let_def try_mkdir_def del: join.simps)

lemma metrics_cube_mkdir_fails:
  "SeismicGeometry L path_cube = Inr g \<Longrightarrow> GeometryMetrics L g = None \<Longrightarrow>
   os_mkdir (join ''/'' [script_dir, short_name g]) w = Inl e \<Longrightarrow> e \<noteq> FileExistsError \<Longrightarrow>
   metrics_cube L S script_dir SHOW path_cube kw w = (Some e, kw, w)"
  by (simp add: metrics_cube_def Let_def try_mkdir_def del: join.simps)

text \<open>
  C4, as the claim words it, fails where the path is there already but is no directory:
  \<open>os.mkdir\<close> on the plain file \<open>notes\<close> raises \<open>FileExistsError\<close>, the notebook
  swallows it, and there is no directory \<open>notes\<close> before or after.
\<close>

theorem mkdir_swallows_a_file:
  "os_mkdir ''notes'' fresh_world = Inl FileExistsError \<and>
   [''notes''] \<in> files fresh_world \<and> \<not> names_directory ''notes'' fresh_world \<and>
   try_mkdir ''notes'' fresh_world = (None, fresh_world) \<and>
   \<not> names_directory ''notes'' (snd (try_mkdir ''notes'' fresh_world))"
  by code_simp

text \<open>
  C4, amended. The one exception the notebooks handle is \<open>FileExistsError\<close>, which
  \<open>os.mkdir\<close> raises exactly when the path names something that is there already, a
  directory or a plain file. Creating an output directory that is already there raises
  nothing and changes nothing, and so does creating one where a plain file of that name
  is; when \<open>os.mkdir\<close> succeeds the path named nothing before and names a directory
  after; creating it twice leaves what creating it once left; the creation goes through
  without an exception only when \<open>os.mkdir\<close> succeeded or raised \<open>FileExistsError\<close>; and
  any other exception of \<open>os.mkdir\<close> leaves \<open>try ... except FileExistsError\<close> and the
  notebook that runs it.
\<close>

theorem mkdir_idempotent:
  "(names_directory d w \<longrightarrow> try_mkdir d w = (None, w)) \<and>
   (names_file d w \<longrightarrow> try_mkdir d w = (None, w)) \<and>
   (os_mkdir d w = Inl FileExistsError \<longleftrightarrow> names_directory d w \<or> names_file d w) \<and>
   (os_mkdir d w = Inr w' \<longrightarrow>
      names_directory d w' \<and> \<not> names_directory d w \<and> \<not> names_file d w) \<and>
   (try_mkdir d w = (None, w') \<longrightarrow>
      try_mkdir d w' = (None, w') \<and>
      (os_mkdir d w = Inr w' \<or> (os_mkdir d w = Inl FileExistsError \<and> w' = w))) \<and>
   (os_mkdir d w = Inl e \<and> e \<noteq> FileExistsError \<longrightarrow>
      try_mkdir d w = (Some e, w) \<and>
      cube_demo P paths N d SHOW w = (Some e, w) \<and>
      cube_metrics L S paths d SHOW w = (Some e, w))"
  using try_mkdir_exists [of d w] try_mkdir_twice [of d w w'] try_mkdir_only_exists [of d w w']
    try_mkdir_propagates [of d w e] cube_demo_mkdir_fails [of d w e P paths N SHOW]
    cube_metrics_mkdir_fails [of d w e L S paths SHOW] os_mkdir_exists_iff [of d w]
    os_mkdir_creates [of d w w']
  by blast

theorem mkdir_idempotent_witness:
  "names_directory ''cube_demo/'' sample_world \<and>
   try_mkdir ''cube_demo/'' sample_world = (None, sample_world) \<and>
   names_file ''notes'' fresh_world \<and>
   try_mkdir ''notes'' fresh_world = (None, fresh_world) \<and>
   os_mkdir ''notes'' fresh_world = Inl FileExistsError \<and>
   try_mkdir ''cube_demo'' fresh_world = (None, fresh_world\<lparr>dirs := {[''cube_demo'']}\<rparr>) \<and>
   try_mkdir ''cube_demo'' (fresh_world\<lparr>dirs := {[''cube_demo'']}\<rparr>) =
     (None, fresh_world\<lparr>dirs := {[''cube_demo'']}\<rparr>) \<and>
   os_mkdir ''cube_demo'' fresh_world = Inr (fresh_world\<lparr>dirs := {[''cube_demo'']}\<rparr>) \<and>
   names_directory ''cube_demo'' (fresh_world\<lparr>dirs := {[''cube_demo'']}\<rparr>) \<and>
   os_mkdir ''notes/cube_demo'' fresh_world = Inl NotADirectoryError \<and>
   try_mkdir ''notes/cube_demo'' fresh_world = (Some NotADirectoryError, fresh_world) \<and>
   cube_demo sample_slicer [''amplitudes.hdf5''] 5 ''notes/cube_demo'' False fresh_world =
     (Some NotADirectoryError, fresh_world) \<and>
   cube_metrics sample_evaluator notebook_settings [''amplitudes.hdf5''] ''notes/cube_demo'' False
     fresh_world = (Some NotADirectoryError, fresh_world)"
proof -
  let ?w1 = "fresh_world\<lparr>dirs := {[''cube_demo'']}\<rparr>"
  have a: "names_directory ''cube_demo/'' sample_world" by code_simp
  have f: "names_file ''notes'' fresh_world" by code_simp
  have b: "try_mkdir ''cube_demo'' fresh_world = (None, ?w1)" by code_simp
  have c: "os_mkdir ''notes/cube_demo'' fresh_world = Inl NotADirectoryError \<and>
           NotADirectoryError \<noteq> FileExistsError"
    by code_simp
  have d: "os_mkdir ''cube_demo'' fresh_world \<noteq> Inl FileExistsError" by code_simp
  from mkdir_idempotent [of "''cube_demo/''" sample_world] a
  have 1: "try_mkdir ''cube_demo/'' sample_world = (None, sample_world)" by blast
  from mkdir_idempotent [of "''notes''" fresh_world] f
  have 2: "try_mkdir ''notes'' fresh_world = (None, fresh_world) \<and>
           os_mkdir ''notes'' fresh_world = Inl FileExistsError"
    by blast
  from mkdir_idempotent [of "''cube_demo''" fresh_world ?w1] b d
  have 3: "try_mkdir ''cube_demo'' ?w1 = (None, ?w1) \<and> os_mkdir ''cube_demo'' fresh_world = Inr ?w1 \<and>
           names_directory ''cube_demo'' ?w1"
    by blast
  from mkdir_idempotent [of "''notes/cube_demo''" fresh_world _ NotADirectoryError sample_slicer
      "[''amplitudes.hdf5'']" 5 False sample_evaluator notebook_settings] c
  have 4: "try_mkdir ''notes/cube_demo'' fresh_world = (Some NotADirectoryError, fresh_world) \<and>
     cube_demo sample_slicer [''amplitudes.hdf5''] 5 ''notes/cube_demo'' False fresh_world =
       (Some NotADirectoryError, fresh_world) \<and>
     cube_metrics sample_evaluator notebook_settings [''amplitudes.hdf5''] ''notes/cube_demo'' False
       fresh_world = (Some NotADirectoryError, fresh_world)"
    by blast
  show ?thesis using a f 1 2 3 4 b c by blast
qed

section \<open>Properties of the metric reporter\<close>

lemma startswith_iff: "startswith s p \<longleftrightarrow> (\<exists>rest. s = p @ rest)"
  by (induction s p rule: startswith.induct) auto

text \<open>
  C3. The preset of a metric name is the local one when the name begins with \<open>local\<close>
  and the support one otherwise, whatever else the name is; \<open>support_hellinger\<close> gets the
  support preset and \<open>local_corr\<close> the local one. (The two presets of the notebook differ.)
\<close>

theorem preset_by_prefix:
  "select_kwargs S name =
     (if \<exists>rest. name = ''local'' @ rest then local_kwargs S else support_kwargs S) \<and>
   select_kwargs S ''support_hellinger'' = support_kwargs S \<and>
   select_kwargs S ''local_corr'' = local_kwargs S \<and>
   local_kwargs notebook_settings \<noteq> support_kwargs notebook_settings"
  by (simp add: select_kwargs_def startswith_iff notebook_settings_def)

theorem preset_by_prefix_witness:
  "select_kwargs notebook_settings ''local_corr'' =
     [(''agg'', PyNone), (''kernel_size'', PyInt 3), (''reduce_func'', PyStr ''mean'')] \<and>
   select_kwargs notebook_settings ''support_hellinger'' =
     [(''agg'', PyStr ''mean''), (''supports'', PyInt 20)]"
  using preset_by_prefix [of notebook_settings "''local_corr''"]
  by (simp add: notebook_settings_def)

lemma split_nonempty: "split sep s \<noteq> []"
  by (induction s) (auto split: list.splits)

lemma split_no_sep: "sep \<notin> set x \<Longrightarrow> split sep x = [x]"
  by (induction x) auto

lemma split_append_sep:
  "sep \<notin> set x \<Longrightarrow> split sep (x @ sep # s) = x # split sep s"
  by (induction x) auto

lemma split_join:
  "xs \<noteq> [] \<Longrightarrow> \<forall>x \<in> set xs. sep \<notin> set x \<Longrightarrow> split sep (join [sep] xs) = xs"
proof (induction xs)
  case Nil
  then show ?case by simp
next
  case (Cons x xs)
  show ?case
  proof (cases xs)
    case Nil
    then show ?thesis using Cons.prems by (simp add: split_no_sep)
  next
    case (Cons y ys)
    then have "split sep (join [sep] xs) = xs" using Cons.IH Cons.prems by simp
    then show ?thesis using Cons Cons.prems by (simp add: split_append_sep)
  qed
qed

lemma join_append:
  "xs \<noteq> [] \<Longrightarrow> ys \<noteq> [] \<Longrightarrow> join sep (xs @ ys) = join sep xs @ sep @ join sep ys"
proof (induction xs)
  case Nil
  then show ?case by simp
next
  case (Cons x xs)
  show ?case
  proof (cases xs)
    case Nil
    then show ?thesis using Cons.prems by (cases ys) auto
  next
    case (Cons z zs)
    then show ?thesis using Cons.IH Cons.prems by simp
  qed
qed

lemma param_suffix_append:
  "kw1 \<noteq> [] \<Longrightarrow> kw2 \<noteq> [] \<Longrightarrow>
   param_suffix (kw1 @ kw2) = param_suffix kw1 @ ''|'' @ param_suffix kw2"
  by (simp add: param_suffix_def join_append)

text \<open>
  C5. The suffix is a function of the dictionary, and it keeps the order of the entries:
  one entry gives \<open>key:value\<close>; a dictionary in two parts gives the suffix of the first
  part, a \<open>|\<close>, and the suffix of the second; and splitting the suffix at \<open>|\<close> gives
  back the \<open>key:value\<close> texts of the entries, one per entry and in the dictionary's order
  (for a dictionary that is not empty and whose keys and values contain no \<open>|\<close>). The
  presets of the notebook give \<open>agg:None|kernel_size:3|reduce_func:mean\<close> and
  \<open>agg:mean|supports:20\<close>.
\<close>

theorem param_suffix_order:
  "param_suffix [(key, value)] = key @ '':'' @ py_str value \<and>
   (kw1 \<noteq> [] \<and> kw2 \<noteq> [] \<longrightarrow>
      param_suffix (kw1 @ kw2) = param_suffix kw1 @ ''|'' @ param_suffix kw2) \<and>
   (kwargs \<noteq> [] \<and>
    (\<forall>(key, value) \<in> set kwargs. CHR ''|'' \<notin> set key \<and> CHR ''|'' \<notin> set (py_str value)) \<longrightarrow>
      split CHR ''|'' (param_suffix kwargs) =
        map (\<lambda>(key, value). key @ '':'' @ py_str value) kwargs) \<and>
   param_suffix (local_kwargs notebook_settings) = ''agg:None|kernel_size:3|reduce_func:mean'' \<and>
   param_suffix (support_kwargs notebook_settings) = ''agg:mean|supports:20''"
proof (intro conjI impI)
  show "param_suffix [(key, value)] = key @ '':'' @ py_str value"
    by (simp add: param_suffix_def)
next
  assume "kw1 \<noteq> [] \<and> kw2 \<noteq> []"
  then show "param_suffix (kw1 @ kw2) = param_suffix kw1 @ ''|'' @ param_suffix kw2"
    by (simp add: param_suffix_append)
next
  assume a: "kwargs \<noteq> [] \<and>
    (\<forall>(key, value) \<in> set kwargs. CHR ''|'' \<notin> set key \<and> CHR ''|'' \<notin> set (py_str value))"
  let ?enc = "\<lambda>(key, value). key @ '':'' @ py_str value"
  have e: "map (\<lambda>(key, value). join '':'' [key, py_str value]) kwargs = map ?enc kwargs"
    by (simp add: case_prod_beta)
  have "map ?enc kwargs \<noteq> []" using a by simp
  moreover have "\<forall>x \<in> set (map ?enc kwargs). CHR ''|'' \<notin> set x" using a by auto
  ultimately have "split CHR ''|'' (join ''|'' (map ?enc kwargs)) = map ?enc kwargs"
    by (rule split_join)
  then show "split CHR ''|'' (param_suffix kwargs) = map ?enc kwargs"
    by (simp add: param_suffix_def e)
next
  show "param_suffix (local_kwargs notebook_settings) = ''agg:None|kernel_size:3|reduce_func:mean''"
    by code_simp
next
  show "param_suffix (support_kwargs notebook_settings) = ''agg:mean|supports:20''"
    by code_simp
qed

theorem param_suffix_order_witness:
  "local_kwargs notebook_settings \<noteq> [] \<and>
   list_all (\<lambda>(key, value). CHR ''|'' \<notin> set key \<and> CHR ''|'' \<notin> set (py_str value))
     (local_kwargs notebook_settings) \<and>
   split CHR ''|'' (param_suffix (local_kwargs notebook_settings)) =
     [''agg:None'', ''kernel_size:3'', ''reduce_func:mean''] \<and>
   param_suffix ([(''agg'', PyNone)] @ [(''kernel_size'', PyInt 3), (''reduce_func'', PyStr ''mean'')]) =
     param_suffix [(''agg'', PyNone)] @ ''|'' @
     param_suffix [(''kernel_size'', PyInt 3), (''reduce_func'', PyStr ''mean'')]"
proof -
  have k: "local_kwargs notebook_settings =
      [(''agg'', PyNone), (''kernel_size'', PyInt 3), (''reduce_func'', PyStr ''mean'')]"
    by (simp add: notebook_settings_def)
  have d: "str_int 3 = ''3''" by code_simp
  have h: "local_kwargs notebook_settings \<noteq> [] \<and>
     (\<forall>(key, value) \<in> set (local_kwargs notebook_settings).
        CHR ''|'' \<notin> set key \<and> CHR ''|'' \<notin> set (py_str value))"
    by (simp add: k d)
  have n: "[(''agg'', PyNone)] \<noteq> [] \<and>
           [(''kernel_size'', PyInt 3), (''reduce_func'', PyStr ''mean'')] \<noteq> []"
    by simp
  from param_suffix_order [of _ _ "[(''agg'', PyNone)]"
      "[(''kernel_size'', PyInt 3), (''reduce_func'', PyStr ''mean'')]"
      "local_kwargs notebook_settings"] h n
  have "split CHR ''|'' (param_suffix (local_kwargs notebook_settings)) =
     map (\<lambda>(key, value). key @ '':'' @ py_str value) (local_kwargs notebook_settings) \<and>
     param_suffix ([(''agg'', PyNone)] @ [(''kernel_size'', PyInt 3), (''reduce_func'', PyStr ''mean'')]) =
     param_suffix [(''agg'', PyNone)] @ ''|'' @
     param_suffix [(''kernel_size'', PyInt 3), (''reduce_func'', PyStr ''mean'')]"
    by blast
  then have A: "split CHR ''|'' (param_suffix (local_kwargs notebook_settings)) =
     map (\<lambda>(key, value). key @ '':'' @ py_str value) (local_kwargs notebook_settings)"
    and B: "param_suffix ([(''agg'', PyNone)] @ [(''kernel_size'', PyInt 3), (''reduce_func'', PyStr ''mean'')]) =
     param_suffix [(''agg'', PyNone)] @ ''|'' @
     param_suffix [(''kernel_size'', PyInt 3), (''reduce_func'', PyStr ''mean'')]"
    by blast+
  have C: "split CHR ''|'' (param_suffix (local_kwargs notebook_settings)) =
     [''agg:None'', ''kernel_size:3'', ''reduce_func:mean'']"
    unfolding A by (simp add: k d)
  have D: "list_all (\<lambda>(key, value). CHR ''|'' \<notin> set key \<and> CHR ''|'' \<notin> set (py_str value))
     (local_kwargs notebook_settings)"
    using h by (simp add: list_all_iff)
  show ?thesis using h B C D by blast
qed


declare metrics_loop.simps(2) [simp del]

lemma is_Evaluate_metric_call [simp]: "is_Evaluate (metric_call S SHOW cube_dir name)"
  by (simp add: metric_call_def)

lemma is_QualityMap_metric_call [simp]: "\<not> is_QualityMap (metric_call S SHOW cube_dir name)"
  by (simp add: metric_call_def)

lemma calls_record_call [simp]: "calls (record_call c w) = calls w @ [c]"
  by (simp add: record_call_def)











section \<open>Properties of the iterative-results summarizer\<close>

lemma and_then_Inr:
  "and_then m f st = (Inr y, st') \<Longrightarrow> \<exists>x st1. m st = (Inr x, st1) \<and> f x st1 = (Inr y, st')"
  by (auto simp: and_then_def split: prod.splits sum.splits)

lemma lift_Inr: "lift r st = (Inr x, st') \<Longrightarrow> r = Inr x \<and> st' = st"
  by (simp add: lift_def)

lemma read_frame_Inr: "read_frame a st = (Inr F, st') \<Longrightarrow> frames st a = Some F \<and> st' = st"
  by (auto simp: read_frame_def split: option.splits)

lemma new_frame_Inr:
  "new_frame F st = (Inr a, st') \<Longrightarrow>
   a = fresh st \<and> st' = st\<lparr>frames := (frames st)(fresh st \<mapsto> F), fresh := Suc (fresh st)\<rparr>"
  by (auto simp: new_frame_def)

lemma write_frame_Inr:
  "write_frame a F st = (Inr u, st') \<Longrightarrow> st' = st\<lparr>frames := (frames st)(a \<mapsto> F)\<rparr>"
  by (auto simp: write_frame_def)

lemma add_name_column_Inr:
  assumes "add_name_column df name k st = (Inr u, st')"
  shows "\<exists>D items names. frames st df = Some D \<and>
           getitem_col D (Name ''cube_and_horizon'') = Inr items \<and>
           apply_each (split_part k) items = Inr names \<and>
           st' = st\<lparr>frames := (frames st)(df \<mapsto> setitem_col D name names)\<rparr>"
proof -
  from assms[unfolded add_name_column_def] obtain D s1 where
    1: "read_frame df st = (Inr D, s1)" and
    r1: "and_then (lift (getitem_col D (Name ''cube_and_horizon''))) (\<lambda>items.
     and_then (lift (apply_each (split_part k) items)) (\<lambda>names.
     and_then (read_frame df) (\<lambda>D'.
     write_frame df (setitem_col D' name names)))) s1 = (Inr u, st')"
    by (blast dest: and_then_Inr)
  from r1 obtain items s2 where
    2: "lift (getitem_col D (Name ''cube_and_horizon'')) s1 = (Inr items, s2)" and
    r2: "and_then (lift (apply_each (split_part k) items)) (\<lambda>names.
     and_then (read_frame df) (\<lambda>D'.
     write_frame df (setitem_col D' name names))) s2 = (Inr u, st')"
    by (blast dest: and_then_Inr)
  from r2 obtain names s3 where
    3: "lift (apply_each (split_part k) items) s2 = (Inr names, s3)" and
    r3: "and_then (read_frame df) (\<lambda>D'.
     write_frame df (setitem_col D' name names)) s3 = (Inr u, st')"
    by (blast dest: and_then_Inr)
  from r3 obtain D' s4 where
    4: "read_frame df s3 = (Inr D', s4)" and
    5: "write_frame df (setitem_col D' name names) s4 = (Inr u, st')"
    by (blast dest: and_then_Inr)
  from 1 have a: "frames st df = Some D" "s1 = st" by (auto dest: read_frame_Inr)
  from 2 have b: "getitem_col D (Name ''cube_and_horizon'') = Inr items" "s2 = s1"
    by (auto dest: lift_Inr)
  from 3 have c: "apply_each (split_part k) items = Inr names" "s3 = s2"
    by (auto dest: lift_Inr)
  from 4 have d: "frames s3 df = Some D'" "s4 = s3" by (auto dest: read_frame_Inr)
  have "D' = D" using a b c d by simp
  then show ?thesis using a b c d write_frame_Inr[OF 5] by auto
qed


lemma project_and_index_Inr:
  assumes run: "project_and_index results_df st = (Inr dff, st')"
    and R: "frames st results_df = Some R"
  shows "\<exists>F items0 n0 items1 n1 F1 F2 F3.
     getitem_cols R (columns @ [Name ''cube_and_horizon'', Name ''repetition'']) = Inr F \<and>
     getitem_col F (Name ''cube_and_horizon'') = Inr items0 \<and>
     apply_each (split_part 0) items0 = Inr n0 \<and>
     getitem_col (setitem_col F (Name ''cube_name'') n0) (Name ''cube_and_horizon'') = Inr items1 \<and>
     apply_each (split_part 1) items1 = Inr n1 \<and>
     reset_index (setitem_col (setitem_col F (Name ''cube_name'') n0) (Name ''horizon_name'') n1)
       = Inr F1 \<and>
     set_index F1 [Name ''cube_name'', Name ''horizon_name''] = Inr F2 \<and>
     getitem_cols F2 columns = Inr F3 \<and>
     frames st' dff = Some F3"
proof -
  let ?cn = "Name ''cube_name''" and ?hn = "Name ''horizon_name''"
  note run' = run[unfolded project_and_index_def]
  from and_then_Inr[OF run'] obtain R' s1 where
    1: "read_frame results_df st = (Inr R', s1)" and
    r1: "and_then (lift (getitem_cols R' (columns @ [Name ''cube_and_horizon'', Name ''repetition'']))) (\<lambda>F.
     and_then (new_frame F) (\<lambda>df.
     and_then (add_name_column df ?cn 0) (\<lambda>u.
     and_then (add_name_column df ?hn 1) (\<lambda>u.
     and_then (read_frame df) (\<lambda>D.
     and_then (lift (reset_index D)) (\<lambda>F1.
     and_then (new_frame F1) (\<lambda>t1.
     and_then (lift (set_index F1 [?cn, ?hn])) (\<lambda>F2.
     and_then (new_frame F2) (\<lambda>t2.
     and_then (lift (getitem_cols F2 columns)) (\<lambda>F3.
     new_frame F3)))))))))) s1 = (Inr dff, st')"
    by blast
  from 1 R have e1: "R' = R" "s1 = st" by (auto dest: read_frame_Inr)
  from and_then_Inr[OF r1] obtain F s2 where
    2: "lift (getitem_cols R' (columns @ [Name ''cube_and_horizon'', Name ''repetition''])) s1 = (Inr F, s2)" and
    r2: "and_then (new_frame F) (\<lambda>df.
     and_then (add_name_column df ?cn 0) (\<lambda>u.
     and_then (add_name_column df ?hn 1) (\<lambda>u.
     and_then (read_frame df) (\<lambda>D.
     and_then (lift (reset_index D)) (\<lambda>F1.
     and_then (new_frame F1) (\<lambda>t1.
     and_then (lift (set_index F1 [?cn, ?hn])) (\<lambda>F2.
     and_then (new_frame F2) (\<lambda>t2.
     and_then (lift (getitem_cols F2 columns)) (\<lambda>F3.
     new_frame F3))))))))) s2 = (Inr dff, st')"
    by blast
  from 2 e1 have e2: "getitem_cols R (columns @ [Name ''cube_and_horizon'', Name ''repetition'']) = Inr F"
    "s2 = st" by (auto dest: lift_Inr)
  from and_then_Inr[OF r2] obtain df s3 where
    3: "new_frame F s2 = (Inr df, s3)" and
    r3: "and_then (add_name_column df ?cn 0) (\<lambda>u.
     and_then (add_name_column df ?hn 1) (\<lambda>u.
     and_then (read_frame df) (\<lambda>D.
     and_then (lift (reset_index D)) (\<lambda>F1.
     and_then (new_frame F1) (\<lambda>t1.
     and_then (lift (set_index F1 [?cn, ?hn])) (\<lambda>F2.
     and_then (new_frame F2) (\<lambda>t2.
     and_then (lift (getitem_cols F2 columns)) (\<lambda>F3.
     new_frame F3)))))))) s3 = (Inr dff, st')"
    by blast
  from new_frame_Inr[OF 3] have e3: "frames s3 df = Some F" by simp
  from and_then_Inr[OF r3] obtain u4 s4 where
    4: "add_name_column df ?cn 0 s3 = (Inr u4, s4)" and
    r4: "and_then (add_name_column df ?hn 1) (\<lambda>u.
     and_then (read_frame df) (\<lambda>D.
     and_then (lift (reset_index D)) (\<lambda>F1.
     and_then (new_frame F1) (\<lambda>t1.
     and_then (lift (set_index F1 [?cn, ?hn])) (\<lambda>F2.
     and_then (new_frame F2) (\<lambda>t2.
     and_then (lift (getitem_cols F2 columns)) (\<lambda>F3.
     new_frame F3))))))) s4 = (Inr dff, st')"
    by blast
  from add_name_column_Inr[OF 4] e3 obtain items0 n0 where
    e4: "getitem_col F (Name ''cube_and_horizon'') = Inr items0"
        "apply_each (split_part 0) items0 = Inr n0"
        "frames s4 df = Some (setitem_col F ?cn n0)"
    by auto
  let ?D1 = "setitem_col F ?cn n0"
  from and_then_Inr[OF r4] obtain u5 s5 where
    5: "add_name_column df ?hn 1 s4 = (Inr u5, s5)" and
    r5: "and_then (read_frame df) (\<lambda>D.
     and_then (lift (reset_index D)) (\<lambda>F1.
     and_then (new_frame F1) (\<lambda>t1.
     and_then (lift (set_index F1 [?cn, ?hn])) (\<lambda>F2.
     and_then (new_frame F2) (\<lambda>t2.
     and_then (lift (getitem_cols F2 columns)) (\<lambda>F3.
     new_frame F3)))))) s5 = (Inr dff, st')"
    by blast
  from add_name_column_Inr[OF 5] e4(3) obtain items1 n1 where
    e5: "getitem_col ?D1 (Name ''cube_and_horizon'') = Inr items1"
        "apply_each (split_part 1) items1 = Inr n1"
        "frames s5 df = Some (setitem_col ?D1 ?hn n1)"
    by auto
  let ?D2 = "setitem_col ?D1 ?hn n1"
  from and_then_Inr[OF r5] obtain D s6 where
    6: "read_frame df s5 = (Inr D, s6)" and
    r6: "and_then (lift (reset_index D)) (\<lambda>F1.
     and_then (new_frame F1) (\<lambda>t1.
     and_then (lift (set_index F1 [?cn, ?hn])) (\<lambda>F2.
     and_then (new_frame F2) (\<lambda>t2.
     and_then (lift (getitem_cols F2 columns)) (\<lambda>F3.
     new_frame F3))))) s6 = (Inr dff, st')"
    by blast
  from 6 e5(3) have e6: "D = ?D2" by (auto dest: read_frame_Inr)
  from and_then_Inr[OF r6] obtain F1 s7 where
    7: "lift (reset_index D) s6 = (Inr F1, s7)" and
    r7: "and_then (new_frame F1) (\<lambda>t1.
     and_then (lift (set_index F1 [?cn, ?hn])) (\<lambda>F2.
     and_then (new_frame F2) (\<lambda>t2.
     and_then (lift (getitem_cols F2 columns)) (\<lambda>F3.
     new_frame F3)))) s7 = (Inr dff, st')"
    by blast
  from 7 e6 have e7: "reset_index ?D2 = Inr F1" by (auto dest: lift_Inr)
  from and_then_Inr[OF r7] obtain t1 s8 where
    r8: "and_then (lift (set_index F1 [?cn, ?hn])) (\<lambda>F2.
     and_then (new_frame F2) (\<lambda>t2.
     and_then (lift (getitem_cols F2 columns)) (\<lambda>F3.
     new_frame F3))) s8 = (Inr dff, st')"
    by blast
  from and_then_Inr[OF r8] obtain F2 s9 where
    9: "lift (set_index F1 [?cn, ?hn]) s8 = (Inr F2, s9)" and
    r9: "and_then (new_frame F2) (\<lambda>t2.
     and_then (lift (getitem_cols F2 columns)) (\<lambda>F3.
     new_frame F3)) s9 = (Inr dff, st')"
    by blast
  from 9 have e9: "set_index F1 [?cn, ?hn] = Inr F2" by (auto dest: lift_Inr)
  from and_then_Inr[OF r9] obtain t2 s10 where
    r10: "and_then (lift (getitem_cols F2 columns)) (\<lambda>F3. new_frame F3) s10 = (Inr dff, st')"
    by blast
  from and_then_Inr[OF r10] obtain F3 s11 where
    11: "lift (getitem_cols F2 columns) s10 = (Inr F3, s11)" and
    12: "new_frame F3 s11 = (Inr dff, st')"
    by blast
  from 11 have e11: "getitem_cols F2 columns = Inr F3" by (auto dest: lift_Inr)
  from new_frame_Inr[OF 12] have e12: "frames st' dff = Some F3" by simp
  show ?thesis using e2(1) e4(1,2) e5(1,2) e7 e9 e11 e12 by blast
qed


lemma find_col_Some: "find_col c xs = Some j \<Longrightarrow> j < length xs \<and> xs ! j = c"
  by (induction xs arbitrary: j) (auto split: if_splits)

lemma find_col_None: "find_col c xs = None \<longleftrightarrow> c \<notin> set xs"
  by (induction xs) auto

lemma find_col_append:
  "c \<notin> set xs \<Longrightarrow> find_col c ys = Some j \<Longrightarrow> find_col c (xs @ ys) = Some (length xs + j)"
  by (induction xs) auto

lemma positions_Inr:
  "positions cs cols = Inr ks \<Longrightarrow>
   length ks = length cs \<and> (\<forall>i<length cs. find_col (cs ! i) cols = Some (ks ! i))"
proof (induction cs arbitrary: ks)
  case Nil
  then show ?case by simp
next
  case (Cons c cs)
  from Cons.prems obtain k ks' where
    k: "find_col c cols = Some k" and p: "positions cs cols = Inr ks'" and ks: "ks = k # ks'"
    by (auto split: option.splits sum.splits)
  from Cons.IH[OF p] have ih: "length ks' = length cs"
    "\<forall>i<length cs. find_col (cs ! i) cols = Some (ks' ! i)" by auto
  show ?case using k ks ih by (auto simp: nth_Cons split: nat.splits)
qed

lemma apply_each_Inr:
  "apply_each f xs = Inr ys \<Longrightarrow> list_all2 (\<lambda>x y. f x = Inr y) xs ys"
  by (induction xs arbitrary: ys) (auto split: sum.splits)

lemma cell_at_map: "k < length ks \<Longrightarrow> cell_at (map f ks) k = f (ks ! k)"
  by (simp add: cell_at_def)

lemma column_of_snoc:
  "length xs = length vs \<Longrightarrow> \<forall>row \<in> set xs. k < length row \<Longrightarrow>
   map (\<lambda>row. cell_at row k) (map2 (\<lambda>row v. row @ [v]) xs vs) = map (\<lambda>row. cell_at row k) xs"
  by (induction xs vs rule: list_induct2) (auto simp: cell_at_def nth_append)

lemma keys_of_rows:
  "length K = length X \<Longrightarrow> length X = length A \<Longrightarrow> length A = length B \<Longrightarrow>
   \<forall>k \<in> set K. length k = L \<Longrightarrow> \<forall>x \<in> set X. length x = 6 \<Longrightarrow>
   map (\<lambda>row. [cell_at row (L + 6), cell_at row (L + 7)])
     (map2 (\<lambda>key row. key @ row) K
        (map2 (\<lambda>row v. row @ [v]) (map2 (\<lambda>row v. row @ [v]) X A) B))
   = map2 (\<lambda>a b. [a, b]) A B"
  by (induction K X A B rule: list_induct4) (auto simp: cell_at_def nth_append)

lemma getitem_cols_Inr:
  assumes "getitem_cols R cs = Inr F"
  shows "\<exists>ks. positions cs (col_labels R) = Inr ks \<and>
           F = R\<lparr>col_labels := cs, cells := map (\<lambda>row. map (cell_at row) ks) (cells R)\<rparr>"
  using assms by (auto simp: getitem_cols_def split: sum.splits)

lemma getitem_col_projection:
  assumes "getitem_cols R cs = Inr F" "c \<in> set cs"
  shows "getitem_col F c = getitem_col R c"
proof -
  from getitem_cols_Inr[OF assms(1)] obtain ks where
    p: "positions cs (col_labels R) = Inr ks" and
    F: "F = R\<lparr>col_labels := cs, cells := map (\<lambda>row. map (cell_at row) ks) (cells R)\<rparr>"
    by blast
  from assms(2) obtain j where j: "find_col c cs = Some j"
    using find_col_None[of c cs] by (cases "find_col c cs") auto
  from find_col_Some[OF j] have jl: "j < length cs" "cs ! j = c" by auto
  from positions_Inr[OF p] jl have k: "length ks = length cs" "find_col c (col_labels R) = Some (ks ! j)"
    by auto
  show ?thesis using j k jl by (simp add: getitem_col_def F cell_at_map)
qed


lemma split_length: "length (split sep s) = Suc (count_list s sep)"
  by (induction s) (auto split: list.splits)

lemma join_split: "join [sep] (split sep s) = s"
proof (induction s)
  case Nil
  then show ?case by simp
next
  case (Cons c s)
  show ?case
  proof (cases "c = sep")
    case True
    obtain p ps where sp: "split sep s = p # ps" by (cases "split sep s") (auto simp: split_nonempty)
    then show ?thesis using True Cons.IH by simp
  next
    case False
    obtain p ps where sp: "split sep s = p # ps" by (cases "split sep s") (auto simp: split_nonempty)
    then show ?thesis using False Cons.IH by (cases ps) auto
  qed
qed

lemma split_pieces_no_sep: "piece \<in> set (split sep s) \<Longrightarrow> sep \<notin> set piece"
  by (induction s arbitrary: piece) (auto split: if_splits list.splits)

lemma split_one:
  assumes "count_list s sep = 1"
  shows "\<exists>a b. split sep s = [a, b] \<and> s = a @ [sep] @ b \<and> sep \<notin> set a \<and> sep \<notin> set b"
proof -
  have "length (split sep s) = 2" using assms by (simp add: split_length)
  then obtain a b where ab: "split sep s = [a, b]"
    by (cases "split sep s"; cases "tl (split sep s)") auto
  have "s = a @ [sep] @ b" using join_split[of sep s] ab by simp
  moreover have "sep \<notin> set a" "sep \<notin> set b"
    using split_pieces_no_sep[of _ sep s] ab by auto
  ultimately show ?thesis using ab by blast
qed


lemma split_part_Inr:
  "split_part k item = Inr y \<Longrightarrow>
   \<exists>s. item = Str s \<and> k < length (split CHR ''+'' s) \<and> y = Str (split CHR ''+'' s ! k)"
  by (auto simp: split_part_def getitem_def split: cell.splits sum.splits if_splits)

lemma setitem_col_new:
  "find_col c (col_labels D) = None \<Longrightarrow>
   setitem_col D c vals =
     D\<lparr>col_labels := col_labels D @ [c], cells := map2 (\<lambda>row v. row @ [v]) (cells D) vals\<rparr>"
  by (simp add: setitem_col_def)

lemma project_and_index_keys:
  assumes run: "project_and_index results_df st = (Inr dff, st')"
    and R: "frames st results_df = Some R" and wf: "wf_frame R"
  shows "\<exists>D items. frames st' dff = Some D \<and>
     getitem_col R (Name ''cube_and_horizon'') = Inr items \<and>
     length items = length (cells R) \<and>
     level_names D = [Some (Name ''cube_name''), Some (Name ''horizon_name'')] \<and>
     col_labels D = columns \<and> length (cells D) = length (cells R) \<and>
     list_all2 (\<lambda>item key. \<exists>s. item = Str s \<and> 1 < length (split CHR ''+'' s) \<and>
         key = [Str (split CHR ''+'' s ! 0), Str (split CHR ''+'' s ! 1)]) items (row_keys D)"
proof -
  let ?cah = "Name ''cube_and_horizon''"
  let ?cn = "Name ''cube_name''" and ?hn = "Name ''horizon_name''"
  let ?cs6 = "columns @ [?cah, Name ''repetition'']"
  let ?snoc = "\<lambda>row v. row @ [v]"
  from project_and_index_Inr[OF run R] obtain F items0 n0 items1 n1 F1 F2 F3 where
    pF: "getitem_cols R ?cs6 = Inr F" and
    i0: "getitem_col F ?cah = Inr items0" and
    a0: "apply_each (split_part 0) items0 = Inr n0" and
    i1: "getitem_col (setitem_col F ?cn n0) ?cah = Inr items1" and
    a1: "apply_each (split_part 1) items1 = Inr n1" and
    ri: "reset_index (setitem_col (setitem_col F ?cn n0) ?hn n1) = Inr F1" and
    si: "set_index F1 [?cn, ?hn] = Inr F2" and
    pc: "getitem_cols F2 columns = Inr F3" and
    fr: "frames st' dff = Some F3"
    by blast
  \<comment> \<open>the projection\<close>
  from getitem_cols_Inr[OF pF] obtain ks where
    ks: "positions ?cs6 (col_labels R) = Inr ks" and
    F: "F = R\<lparr>col_labels := ?cs6, cells := map (\<lambda>row. map (cell_at row) ks) (cells R)\<rparr>"
    by blast
  have lks: "length ks = 6" using positions_Inr[OF ks] by (simp add: columns_def)
  have cF: "col_labels F = ?cs6" "row_keys F = row_keys R" "level_names F = level_names R"
    "length (cells F) = length (cells R)" "\<forall>x \<in> set (cells F). length x = 6"
    using lks by (auto simp: F)
  have n: "length (row_keys R) = length (cells R)"
    "\<forall>k \<in> set (row_keys R). length k = length (level_names R)"
    using wf by (auto simp: wf_frame_def list_all_iff)
  \<comment> \<open>the composite keys\<close>
  have iR: "getitem_col R ?cah = Inr items0"
    using getitem_col_projection[OF pF, of ?cah] i0 by simp
  have f4: "find_col ?cah ?cs6 = Some 4" by (simp add: columns_def)
  have items0: "items0 = map (\<lambda>row. cell_at row 4) (cells F)"
    using i0 f4 by (simp add: getitem_col_def cF(1))
  then have li: "length items0 = length (cells R)" using cF(4) by simp
  \<comment> \<open>the two name columns\<close>
  from apply_each_Inr[OF a0] have l0: "list_all2 (\<lambda>x y. split_part 0 x = Inr y) items0 n0" .
  then have ln0: "length n0 = length (cells F)" using li cF(4) by (simp add: list_all2_lengthD)
  have D1: "setitem_col F ?cn n0 = F\<lparr>col_labels := ?cs6 @ [?cn], cells := map2 ?snoc (cells F) n0\<rparr>"
    using setitem_col_new[of ?cn F n0] by (simp add: cF(1) columns_def)
  let ?D1 = "F\<lparr>col_labels := ?cs6 @ [?cn], cells := map2 ?snoc (cells F) n0\<rparr>"
  have f4': "find_col ?cah (?cs6 @ [?cn]) = Some 4" by (simp add: columns_def)
  have "items1 = map (\<lambda>row. cell_at row 4) (map2 ?snoc (cells F) n0)"
    using i1 f4' unfolding D1 by (simp add: getitem_col_def)
  also have "\<dots> = map (\<lambda>row. cell_at row 4) (cells F)"
    using ln0 cF(5) by (intro column_of_snoc) auto
  finally have items1: "items1 = items0" using items0 by simp
  from apply_each_Inr[OF a1] have l1: "list_all2 (\<lambda>x y. split_part 1 x = Inr y) items0 n1"
    unfolding items1 .
  then have ln1: "length n1 = length (cells F)" using li cF(4) by (simp add: list_all2_lengthD)
  have D2: "setitem_col ?D1 ?hn n1 =
      F\<lparr>col_labels := ?cs6 @ [?cn, ?hn],
        cells := map2 ?snoc (map2 ?snoc (cells F) n0) n1\<rparr>"
    using setitem_col_new[of ?hn ?D1 n1] by (simp add: columns_def)
  let ?D2 = "F\<lparr>col_labels := ?cs6 @ [?cn, ?hn], cells := map2 ?snoc (map2 ?snoc (cells F) n0) n1\<rparr>"
  \<comment> \<open>the re-indexing\<close>
  define new where "new = map (\<lambda>(i, name). level_label (col_labels ?D2) (length (level_names ?D2)) i name)
                  (enumerate 0 (level_names ?D2))"
  have lnew: "length new = length (level_names R)" by (simp add: new_def cF(3))
  from ri have ri': "reset_index ?D2 = Inr F1" unfolding D1 D2 .
  then have clash: "\<not> list_ex (\<lambda>l. l \<in> set (col_labels ?D2)) new"
    and F1: "F1 = \<lparr>level_names = [None],
                   row_keys = map (\<lambda>i. [IntVal (int i)]) [0..<length (cells ?D2)],
                   col_labels = new @ col_labels ?D2,
                   cells = map2 (\<lambda>key row. key @ row) (row_keys ?D2) (cells ?D2)\<rparr>"
    unfolding reset_index_def Let_def new_def[symmetric] by (auto split: if_splits)
  have notin: "?cn \<notin> set new" "?hn \<notin> set new"
    using clash by (auto simp: list_ex_iff)
  have "find_col ?cn (?cs6 @ [?cn, ?hn]) = Some 6" "find_col ?hn (?cs6 @ [?cn, ?hn]) = Some 7"
    by (simp_all add: columns_def)
  then have fc: "find_col ?cn (col_labels F1) = Some (length (level_names R) + 6)"
    "find_col ?hn (col_labels F1) = Some (length (level_names R) + 7)"
    using find_col_append[OF notin(1)] find_col_append[OF notin(2)] lnew by (simp_all add: F1)
  from si fc have F2: "F2 = \<lparr>level_names = map Some [?cn, ?hn],
               row_keys = map (\<lambda>row. map (cell_at row)
                   [length (level_names R) + 6, length (level_names R) + 7]) (cells F1),
               col_labels = filter (\<lambda>c. c \<notin> set [?cn, ?hn]) (col_labels F1),
               cells = map (\<lambda>row. map snd (filter (\<lambda>(c, v). c \<notin> set [?cn, ?hn])
                                               (zip (col_labels F1) row))) (cells F1)\<rparr>"
    by (simp add: set_index_def)
  from getitem_cols_Inr[OF pc] obtain ks3 where
    F3: "F3 = F2\<lparr>col_labels := columns, cells := map (\<lambda>row. map (cell_at row) ks3) (cells F2)\<rparr>"
    by blast
  have cellsF1: "cells F1 = map2 (\<lambda>key row. key @ row) (row_keys R)
      (map2 ?snoc (map2 ?snoc (cells F) n0) n1)"
    by (simp add: F1 cF(2))
  have keys: "row_keys F3 = map2 (\<lambda>a b. [a, b]) n0 n1"
  proof -
    have "row_keys F3 = map (\<lambda>row. [cell_at row (length (level_names R) + 6),
                                     cell_at row (length (level_names R) + 7)]) (cells F1)"
      by (simp add: F3 F2)
    also have "\<dots> = map2 (\<lambda>a b. [a, b]) n0 n1"
      unfolding cellsF1 using n cF(4,5) ln0 ln1 by (intro keys_of_rows) auto
    finally show ?thesis .
  qed
  have lc: "length (cells F3) = length (cells R)"
    using n cF(4) ln0 ln1 by (simp add: F3 F2 cellsF1)
  have "list_all2 (\<lambda>item key. \<exists>s. item = Str s \<and> 1 < length (split CHR ''+'' s) \<and>
         key = [Str (split CHR ''+'' s ! 0), Str (split CHR ''+'' s ! 1)]) items0 (row_keys F3)"
    unfolding keys list_all2_conv_all_nth
  proof (intro conjI allI impI)
    show "length items0 = length (map2 (\<lambda>a b. [a, b]) n0 n1)"
      using li ln0 ln1 cF(4) by simp
  next
    fix i assume i: "i < length items0"
    from l0 i have s0: "split_part 0 (items0 ! i) = Inr (n0 ! i)"
      by (simp add: list_all2_conv_all_nth)
    from l1 i have s1: "split_part 1 (items0 ! i) = Inr (n1 ! i)"
      by (simp add: list_all2_conv_all_nth)
    from split_part_Inr[OF s0] split_part_Inr[OF s1] obtain s where
      "items0 ! i = Str s" "1 < length (split CHR ''+'' s)"
      "n0 ! i = Str (split CHR ''+'' s ! 0)" "n1 ! i = Str (split CHR ''+'' s ! 1)"
      by auto
    moreover have "map2 (\<lambda>a b. [a, b]) n0 n1 ! i = [n0 ! i, n1 ! i]"
      using i li ln0 ln1 cF(4) by simp
    ultimately show "\<exists>s. items0 ! i = Str s \<and> 1 < length (split CHR ''+'' s) \<and>
         map2 (\<lambda>a b. [a, b]) n0 n1 ! i = [Str (split CHR ''+'' s ! 0), Str (split CHR ''+'' s ! 1)]"
      by simp
  qed
  moreover have "level_names F3 = [Some ?cn, Some ?hn]" "col_labels F3 = columns"
    by (simp_all add: F3 F2)
  ultimately show ?thesis using fr iR li lc by blast
qed


lemma positions_total: "set cs \<subseteq> set cols \<Longrightarrow> \<exists>ks. positions cs cols = Inr ks"
proof (induction cs)
  case Nil
  then show ?case by simp
next
  case (Cons c cs)
  then obtain ks where "positions cs cols = Inr ks" by auto
  moreover obtain k where "find_col c cols = Some k"
    using Cons.prems find_col_None[of c cols] by (cases "find_col c cols") auto
  ultimately show ?case by simp
qed

lemma apply_each_total:
  "\<forall>x \<in> set xs. \<exists>y. f x = Inr y \<Longrightarrow> \<exists>ys. apply_each f xs = Inr ys"
proof (induction xs)
  case Nil
  then show ?case by simp
next
  case (Cons x xs)
  then obtain ys y where "apply_each f xs = Inr ys" "f x = Inr y" by auto
  then show ?case by simp
qed

lemma split_part_total:
  "count_list s CHR ''+'' = 1 \<Longrightarrow> k < 2 \<Longrightarrow> \<exists>y. split_part k (Str s) = Inr y"
  by (simp add: split_part_def getitem_def split_length)

lemma add_name_column_run:
  assumes "frames st df = Some D" "getitem_col D (Name ''cube_and_horizon'') = Inr items"
    "apply_each (split_part k) items = Inr names"
  shows "add_name_column df name k st =
           (Inr (), st\<lparr>frames := (frames st)(df \<mapsto> setitem_col D name names)\<rparr>)"
  using assms
  by (simp add: add_name_column_def and_then_def read_frame_def lift_def write_frame_def)

lemma project_and_index_succeeds:
  assumes R: "frames st results_df = Some R"
    and cols: "set (columns @ [Name ''cube_and_horizon'', Name ''repetition'']) \<subseteq> set (col_labels R)"
    and idx: "level_names R = [None]"
    and items: "getitem_col R (Name ''cube_and_horizon'') = Inr items"
    and one: "list_all (\<lambda>item. \<exists>s. item = Str s \<and> count_list s CHR ''+'' = 1) items"
  shows "\<exists>dff st'. project_and_index results_df st = (Inr dff, st')"
proof -
  let ?cah = "Name ''cube_and_horizon''"
  let ?cn = "Name ''cube_name''" and ?hn = "Name ''horizon_name''"
  let ?cs6 = "columns @ [?cah, Name ''repetition'']"
  let ?snoc = "\<lambda>row v. row @ [v]"
  from positions_total[OF cols] obtain ks where ks: "positions ?cs6 (col_labels R) = Inr ks"
    by blast
  define F where "F = R\<lparr>col_labels := ?cs6, cells := map (\<lambda>row. map (cell_at row) ks) (cells R)\<rparr>"
  have pF: "getitem_cols R ?cs6 = Inr F" using ks by (simp add: getitem_cols_def F_def)
  have i0: "getitem_col F ?cah = Inr items"
    using getitem_col_projection[OF pF, of ?cah] items by simp
  have ok: "\<forall>x \<in> set items. \<exists>y. split_part k x = Inr y" if "k < 2" for k
    using one that split_part_total by (fastforce simp: list_all_iff)
  from apply_each_total[OF ok[of 0]] obtain n0 where a0: "apply_each (split_part 0) items = Inr n0"
    by auto
  from apply_each_total[OF ok[of 1]] obtain n1 where a1: "apply_each (split_part 1) items = Inr n1"
    by auto
  have cF: "col_labels F = ?cs6" "level_names F = [None]" by (simp_all add: F_def idx)
  define D1 where "D1 = setitem_col F ?cn n0"
  have D1: "D1 = F\<lparr>col_labels := ?cs6 @ [?cn], cells := map2 ?snoc (cells F) n0\<rparr>"
    unfolding D1_def using setitem_col_new[of ?cn F n0] by (simp add: cF(1) columns_def)
  have lks: "length ks = 6" using positions_Inr[OF ks] by (simp add: columns_def)
  have rows: "\<forall>x \<in> set (cells F). 4 < length x" using lks by (auto simp: F_def)
  have li: "length items = length (cells F)"
    using i0 by (auto simp: getitem_col_def split: option.splits)
  have ln0: "length n0 = length (cells F)"
    using apply_each_Inr[OF a0] li by (simp add: list_all2_lengthD)
  have f4: "find_col ?cah ?cs6 = Some 4" "find_col ?cah (?cs6 @ [?cn]) = Some 4"
    by (simp_all add: columns_def)
  have "getitem_col D1 ?cah = Inr (map (\<lambda>row. cell_at row 4) (map2 ?snoc (cells F) n0))"
    using f4 by (simp add: D1 getitem_col_def)
  also have "map (\<lambda>row. cell_at row 4) (map2 ?snoc (cells F) n0) = map (\<lambda>row. cell_at row 4) (cells F)"
    using ln0 rows by (intro column_of_snoc) auto
  also have "Inr (map (\<lambda>row. cell_at row 4) (cells F)) = getitem_col F ?cah"
    using f4 by (simp add: getitem_col_def cF(1))
  finally have i1: "getitem_col D1 ?cah = Inr items" using i0 by simp
  define D2 where "D2 = setitem_col D1 ?hn n1"
  have D2: "D2 = D1\<lparr>col_labels := ?cs6 @ [?cn, ?hn], cells := map2 ?snoc (cells D1) n1\<rparr>"
    unfolding D2_def using setitem_col_new[of ?hn D1 n1] by (simp add: D1 columns_def)
  have cD2: "col_labels D2 = ?cs6 @ [?cn, ?hn]" "level_names D2 = [None]"
    by (simp_all add: D2 D1 cF)
  define F1 where "F1 = \<lparr>level_names = [None],
                   row_keys = map (\<lambda>i. [IntVal (int i)]) [0..<length (cells D2)],
                   col_labels = [Name ''index''] @ col_labels D2,
                   cells = map2 (\<lambda>key row. key @ row) (row_keys D2) (cells D2)\<rparr>"
  have ri: "reset_index D2 = Inr F1"
    by (simp add: reset_index_def Let_def cD2 level_label_def columns_def enumerate_eq_zip F1_def)
  have cF1: "col_labels F1 = Name ''index'' # ?cs6 @ [?cn, ?hn]" by (simp add: F1_def cD2)
  obtain F2 where si: "set_index F1 [?cn, ?hn] = Inr F2"
    and cF2: "col_labels F2 = Name ''index'' # ?cs6"
    by (simp add: set_index_def cF1 columns_def)
  have "set columns \<subseteq> set (col_labels F2)" by (auto simp: cF2)
  from positions_total[OF this] obtain ks3 where "positions columns (col_labels F2) = Inr ks3"
    by blast
  then obtain F3 where pc: "getitem_cols F2 columns = Inr F3" by (simp add: getitem_cols_def)
  have r4: "add_name_column (fresh st) ?cn 0 s =
              (Inr (), s\<lparr>frames := (frames s)(fresh st \<mapsto> D1)\<rparr>)"
    if "frames s (fresh st) = Some F" for s :: "'a store"
    unfolding D1_def using that by (rule add_name_column_run[OF _ i0 a0])
  have r5: "add_name_column (fresh st) ?hn (Suc 0) s =
              (Inr (), s\<lparr>frames := (frames s)(fresh st \<mapsto> D2)\<rparr>)"
    if "frames s (fresh st) = Some D1" for s :: "'a store"
    unfolding D2_def using that add_name_column_run[OF _ i1 a1, of s "fresh st" ?hn] by simp
  have "fst (project_and_index results_df st) = Inr (fresh st + 3)"
    unfolding project_and_index_def
    by (simp add: and_then_def read_frame_def R lift_def pF new_frame_def r4 r5 ri si pc)
  then show ?thesis by (metis prod.collapse)
qed

lemma keeps_lift: "keeps n (lift r) (\<lambda>x. True)"
  by (simp add: keeps_def lift_def)

lemma keeps_read: "keeps n (read_frame a) (\<lambda>x. True)"
  by (auto simp: keeps_def read_frame_def split: option.splits)

lemma keeps_new: "keeps n (new_frame F) (\<lambda>a. n \<le> a)"
  by (auto simp: keeps_def new_frame_def)

lemma keeps_write: "n \<le> a \<Longrightarrow> keeps n (write_frame a F) (\<lambda>x. True)"
  by (auto simp: keeps_def write_frame_def)

lemma keeps_and_then:
  assumes m: "keeps n m Q" and f: "\<And>x. Q x \<Longrightarrow> keeps n (f x) Q'"
  shows "keeps n (and_then m f) Q'"
  unfolding keeps_def
proof (intro allI impI)
  fix st r st'
  assume a: "n \<le> fresh st \<and> and_then m f st = (r, st')"
  obtain r1 st1 where m1: "m st = (r1, st1)" by (cases "m st")
  from m m1 a have k1: "n \<le> fresh st1" "\<forall>a<n. frames st1 a = frames st a" "\<forall>x. r1 = Inr x \<longrightarrow> Q x"
    unfolding keeps_def by blast+
  show "n \<le> fresh st' \<and> (\<forall>a<n. frames st' a = frames st a) \<and> (\<forall>x. r = Inr x \<longrightarrow> Q' x)"
  proof (cases r1)
    case (Inl e)
    then have "r = Inl e" "st' = st1" using a m1 by (simp_all add: and_then_def)
    then show ?thesis using k1 by simp
  next
    case (Inr x)
    then have fx: "f x st1 = (r, st')" using a m1 by (simp add: and_then_def)
    have "keeps n (f x) Q'" using f k1(3) Inr by simp
    with fx k1(1) have "n \<le> fresh st'" "\<forall>a<n. frames st' a = frames st1 a" "\<forall>x. r = Inr x \<longrightarrow> Q' x"
      unfolding keeps_def by blast+
    then show ?thesis using k1(2) by simp
  qed
qed

lemma keeps_add_name_column: "n \<le> df \<Longrightarrow> keeps n (add_name_column df name k) (\<lambda>x. True)"
  unfolding add_name_column_def
  by (intro keeps_and_then[OF keeps_read] keeps_and_then[OF keeps_lift] keeps_write)

lemma keeps_project_and_index: "keeps n (project_and_index results_df) (\<lambda>a. n \<le> a)"
  unfolding project_and_index_def
  by (intro keeps_and_then[OF keeps_read] keeps_and_then[OF keeps_lift]
        keeps_and_then[OF keeps_new] keeps_and_then[OF keeps_add_name_column] keeps_new)

lemma keeps_raise: "keeps n (lift (Inl e)) Q"
  by (simp add: keeps_def lift_def)

lemma keeps_per_iteration: "keeps n (per_iteration dff column prefix) (\<lambda>a. n \<le> a)"
proof -
  have "keeps n
     (case apply_Series D vals of
        None \<Rightarrow> lift (Inl ValueError)
      | Some T \<Rightarrow>
          and_then (new_frame T) (\<lambda>wide.
          and_then (read_frame wide) (\<lambda>W.
          new_frame (rename_columns (map (\<lambda>i. (Pos i, Name (prefix @ str_int (int i)))) [0..<3]) W))))
     (\<lambda>a. n \<le> a)" for D :: "'a frame" and vals
    by (cases "apply_Series D vals")
       (auto intro!: keeps_raise keeps_and_then[OF keeps_new] keeps_and_then[OF keeps_read] keeps_new)
  then show ?thesis
    unfolding per_iteration_def
    by (intro keeps_and_then[OF keeps_read] keeps_and_then[OF keeps_lift])
qed

lemma keeps_reshape: "keeps n (reshape dff) (\<lambda>x. True)"
  unfolding reshape_def
  by (intro keeps_and_then[OF keeps_read] keeps_and_then[OF keeps_per_iteration]
        keeps_and_then[OF keeps_new] keeps_read)

lemma keeps_summarize: "keeps n (summarize results_df) (\<lambda>x. True)"
  unfolding summarize_def
  by (intro keeps_and_then[OF keeps_project_and_index] keeps_reshape)

lemma summarize_frame:
  assumes "summarize results_df st = (out, st')" "a < fresh st"
  shows "frames st' a = frames st a"
  using keeps_summarize[of "fresh st" results_df] assms unfolding keeps_def by blast

lemma two_pieces_unique:
  fixes sep :: char
  assumes "sep \<notin> set a" "sep \<notin> set b" "sep \<notin> set a'" "sep \<notin> set b'"
    and "a @ [sep] @ b = a' @ [sep] @ b'"
  shows "a = a' \<and> b = b'"
proof -
  have s1: "split sep (a @ sep # b) = [a, b]" and s2: "split sep (a' @ sep # b') = [a', b']"
    using assms(1-4) by (simp_all add: split_append_sep split_no_sep)
  have e: "a @ sep # b = a' @ sep # b'" using assms(5) by simp
  have "split sep (a @ sep # b) = split sep (a' @ sep # b')" by (rule arg_cong[OF e])
  then have "[a, b] = [a', b']" unfolding s1 s2 .
  then show ?thesis by simp
qed

lemma list_all2_count:
  assumes "list_all2 P xs ys" and "P x y"
    and "\<And>x' y'. P x' y' \<Longrightarrow> (x' = x) = (y' = y)"
  shows "count_list xs x = count_list ys y"
  using assms(1)
proof (induction rule: list_all2_induct)
  case Nil
  then show ?case by simp
next
  case (Cons x' xs y' ys)
  then show ?case using assms(3)[of x' y'] by simp
qed

lemma list_all2_distinct:
  assumes "list_all2 P xs ys"
    and "\<And>x y x' y'. P x y \<Longrightarrow> P x' y' \<Longrightarrow> (x = x') = (y = y')"
  shows "distinct xs = distinct ys"
proof -
  have l: "length xs = length ys" using assms(1) by (rule list_all2_lengthD)
  have "(xs ! i = xs ! j) = (ys ! i = ys ! j)" if "i < length xs" "j < length xs" for i j
    using assms(1) that assms(2)[of "xs ! i" "ys ! i" "xs ! j" "ys ! j"]
    by (simp add: list_all2_conv_all_nth)
  then show ?thesis unfolding distinct_conv_nth l[symmetric] by blast
qed

lemma repeated_run:
  "fst (project_and_index 0 repeated_store) = Inr 4 \<and>
   map_option row_keys (frames (snd (project_and_index 0 repeated_store)) 4) =
     Some [[Str ''b'', Str ''y''], [Str ''a'', Str ''x''], [Str ''b'', Str ''y'']]"
  by code_simp

text \<open>
  C7, as the claim words it, fails on a results table in which a composite key repeats:
  with the keys \<open>b+y\<close>, \<open>a+x\<close>, \<open>b+y\<close> (one experiment in two repetitions) the table
  holds two (source, horizon) pairs and the index of \<open>dff\<close> has three rows.
\<close>

theorem composite_key_repeated:
  "frames repeated_store 0 = Some repeated_results \<and> wf_frame repeated_results \<and>
   getitem_col repeated_results (Name ''cube_and_horizon'') =
     Inr [Str ''b+y'', Str ''a+x'', Str ''b+y''] \<and>
   list_all one_delimiter [Str ''b+y'', Str ''a+x'', Str ''b+y'' :: int cell] \<and>
   length (remdups [Str ''b+y'', Str ''a+x'', Str ''b+y'' :: int cell]) = 2 \<and>
   fst (project_and_index 0 repeated_store) = Inr 4 \<and>
   map_option row_keys (frames (snd (project_and_index 0 repeated_store)) 4) =
     Some [[Str ''b'', Str ''y''], [Str ''a'', Str ''x''], [Str ''b'', Str ''y'']] \<and>
   map_option (\<lambda>D. length (row_keys D)) (frames (snd (project_and_index 0 repeated_store)) 4) =
     Some 3"
proof -
  have 1: "frames repeated_store 0 = Some repeated_results" by (simp add: repeated_store_def)
  have 2: "wf_frame repeated_results" by (simp add: wf_frame_def repeated_results_def)
  have 3: "getitem_col repeated_results (Name ''cube_and_horizon'') =
     Inr [Str ''b+y'', Str ''a+x'', Str ''b+y'']"
    by (simp add: getitem_col_def repeated_results_def cell_at_def)
  have 4: "list_all one_delimiter [Str ''b+y'', Str ''a+x'', Str ''b+y'' :: int cell]"
    by (simp add: one_delimiter_def)
  have 5: "length (remdups [Str ''b+y'', Str ''a+x'', Str ''b+y'' :: int cell]) = 2" by simp
  from repeated_run obtain D where
    D: "frames (snd (project_and_index 0 repeated_store)) 4 = Some D"
       "row_keys D = [[Str ''b'', Str ''y''], [Str ''a'', Str ''x''], [Str ''b'', Str ''y'']]"
    by auto
  have 6: "map_option (\<lambda>D. length (row_keys D))
        (frames (snd (project_and_index 0 repeated_store)) 4) = Some 3"
    unfolding D(1) by (simp add: D(2))
  show ?thesis using 1 2 3 4 5 6 repeated_run by blast
qed

text \<open>
  C7, amended. A composite key with exactly one \<open>+\<close> splits into exactly two pieces, the
  text before the \<open>+\<close> and the text after it. When the third cell goes through on a
  well-formed results table whose composite keys have exactly one \<open>+\<close> each, the table
  \<open>dff\<close> has the two index levels \<open>cube_name\<close> and \<open>horizon_name\<close> and one row per row
  of the results table, in the same order, keyed by the two pieces of that row's composite
  key: a (source, horizon) pair stands in the index as often as its composite key stands
  in the results table, so there is one row per pair exactly when no composite key
  repeats. For a results table with a default index and the six columns the cell reads,
  it goes through.
\<close>

theorem composite_key_index:
  "(count_list s CHR ''+'' = 1 \<longrightarrow>
      (\<exists>a b. split CHR ''+'' s = [a, b] \<and> s = a @ ''+'' @ b \<and>
             CHR ''+'' \<notin> set a \<and> CHR ''+'' \<notin> set b)) \<and>
   (frames st results_df = Some R \<and> wf_frame R \<and>
    getitem_col R (Name ''cube_and_horizon'') = Inr items \<and> list_all one_delimiter items \<and>
    project_and_index results_df st = (Inr dff, st') \<longrightarrow>
      (\<exists>D. frames st' dff = Some D \<and>
           level_names D = [Some (Name ''cube_name''), Some (Name ''horizon_name'')] \<and>
           col_labels D = columns \<and>
           length (cells D) = length (cells R) \<and>
           list_all2 (\<lambda>item key. \<exists>a b. item = Str (a @ ''+'' @ b) \<and>
               CHR ''+'' \<notin> set a \<and> CHR ''+'' \<notin> set b \<and> key = [Str a, Str b])
             items (row_keys D) \<and>
           (\<forall>a b. CHR ''+'' \<notin> set a \<and> CHR ''+'' \<notin> set b \<longrightarrow>
              count_list (row_keys D) [Str a, Str b] = count_list items (Str (a @ ''+'' @ b))) \<and>
           distinct (row_keys D) = distinct items)) \<and>
   (frames st results_df = Some R \<and> level_names R = [None] \<and>
    set (columns @ [Name ''cube_and_horizon'', Name ''repetition'']) \<subseteq> set (col_labels R) \<and>
    getitem_col R (Name ''cube_and_horizon'') = Inr items \<and> list_all one_delimiter items \<longrightarrow>
      (\<exists>dff st'. project_and_index results_df st = (Inr dff, st')))"
proof (intro conjI impI)
  assume "count_list s CHR ''+'' = 1"
  from split_one[OF this]
  show "\<exists>a b. split CHR ''+'' s = [a, b] \<and> s = a @ ''+'' @ b \<and>
             CHR ''+'' \<notin> set a \<and> CHR ''+'' \<notin> set b"
    by simp
next
  assume a: "frames st results_df = Some R \<and> wf_frame R \<and>
    getitem_col R (Name ''cube_and_horizon'') = Inr items \<and> list_all one_delimiter items \<and>
    project_and_index results_df st = (Inr dff, st')"
  define P :: "'a cell \<Rightarrow> 'a cell list \<Rightarrow> bool" where
    "P = (\<lambda>item key. \<exists>a b. item = Str (a @ ''+'' @ b) \<and>
               CHR ''+'' \<notin> set a \<and> CHR ''+'' \<notin> set b \<and> key = [Str a, Str b])"
  from a project_and_index_keys[of results_df st dff st' R] obtain D where
    D: "frames st' dff = Some D"
       "level_names D = [Some (Name ''cube_name''), Some (Name ''horizon_name'')]"
       "col_labels D = columns" "length (cells D) = length (cells R)"
       "list_all2 (\<lambda>item key. \<exists>s. item = Str s \<and> 1 < length (split CHR ''+'' s) \<and>
         key = [Str (split CHR ''+'' s ! 0), Str (split CHR ''+'' s ! 1)]) items (row_keys D)"
    by auto
  have la: "list_all2 P items (row_keys D)"
    unfolding list_all2_conv_all_nth
  proof (intro conjI allI impI)
    show "length items = length (row_keys D)" using D(5) by (rule list_all2_lengthD)
  next
    fix i assume i: "i < length items"
    from D(5) i obtain s where s: "items ! i = Str s"
      "row_keys D ! i = [Str (split CHR ''+'' s ! 0), Str (split CHR ''+'' s ! 1)]"
      by (auto simp: list_all2_conv_all_nth)
    have "one_delimiter (items ! i)" using a i by (simp add: list_all_length)
    then have "count_list s CHR ''+'' = 1" using s(1) by (simp add: one_delimiter_def)
    from split_one[OF this] obtain x y where
      xy: "split CHR ''+'' s = [x, y]" "s = x @ ''+'' @ y" "CHR ''+'' \<notin> set x" "CHR ''+'' \<notin> set y"
      by auto
    have "items ! i = Str (x @ ''+'' @ y) \<and> CHR ''+'' \<notin> set x \<and> CHR ''+'' \<notin> set y \<and>
          row_keys D ! i = [Str x, Str y]"
      using s xy by simp
    then show "P (items ! i) (row_keys D ! i)" unfolding P_def by (intro exI)
  qed
  have inj: "(x = x') = (y = y')" if p: "P x y" "P x' y'" for x y x' y'
  proof -
    from p(1) obtain a b where 1: "x = Str (a @ ''+'' @ b)" "CHR ''+'' \<notin> set a"
      "CHR ''+'' \<notin> set b" "y = [Str a, Str b]"
      unfolding P_def by (elim exE conjE)
    from p(2) obtain a' b' where 2: "x' = Str (a' @ ''+'' @ b')" "CHR ''+'' \<notin> set a'"
      "CHR ''+'' \<notin> set b'" "y' = [Str a', Str b']"
      unfolding P_def by (elim exE conjE)
    show ?thesis
    proof
      assume "x = x'"
      then have "a @ [CHR ''+''] @ b = a' @ [CHR ''+''] @ b'" using 1(1) 2(1) by simp
      from two_pieces_unique[OF 1(2,3) 2(2,3) this] show "y = y'" using 1(4) 2(4) by simp
    next
      assume "y = y'"
      then show "x = x'" using 1 2 by simp
    qed
  qed
  have cnt: "\<forall>a b. CHR ''+'' \<notin> set a \<and> CHR ''+'' \<notin> set b \<longrightarrow>
              count_list (row_keys D) [Str a, Str b] = count_list items (Str (a @ ''+'' @ b))"
  proof (intro allI impI)
    fix a b :: string assume ab: "CHR ''+'' \<notin> set a \<and> CHR ''+'' \<notin> set b"
    have "Str (a @ ''+'' @ b) = Str (a @ ''+'' @ b) \<and> CHR ''+'' \<notin> set a \<and>
          CHR ''+'' \<notin> set b \<and> [Str a, Str b :: 'a cell] = [Str a, Str b]"
      using ab by simp
    then have p: "P (Str (a @ ''+'' @ b)) [Str a, Str b]" unfolding P_def by (intro exI)
    have "count_list items (Str (a @ ''+'' @ b)) = count_list (row_keys D) [Str a, Str b]"
    proof (rule list_all2_count[of P items "row_keys D" "Str (a @ ''+'' @ b)" "[Str a, Str b]"])
      show "list_all2 P items (row_keys D)" by (rule la)
      show "P (Str (a @ ''+'' @ b)) [Str a, Str b]" by (rule p)
      show "(x' = Str (a @ ''+'' @ b)) = (y' = [Str a, Str b])" if "P x' y'" for x' y'
        by (rule inj[OF that p])
    qed
    then show "count_list (row_keys D) [Str a, Str b] = count_list items (Str (a @ ''+'' @ b))"
      by (rule sym)
  qed
  have "distinct items = distinct (row_keys D)"
  proof (rule list_all2_distinct[of P items "row_keys D"])
    show "list_all2 P items (row_keys D)" by (rule la)
    show "(x = x') = (y = y')" if "P x y" "P x' y'" for x y x' y'
      using that by (rule inj)
  qed
  then have dist: "distinct (row_keys D) = distinct items" by (rule sym)
  show "\<exists>D. frames st' dff = Some D \<and>
           level_names D = [Some (Name ''cube_name''), Some (Name ''horizon_name'')] \<and>
           col_labels D = columns \<and>
           length (cells D) = length (cells R) \<and>
           list_all2 (\<lambda>item key. \<exists>a b. item = Str (a @ ''+'' @ b) \<and>
               CHR ''+'' \<notin> set a \<and> CHR ''+'' \<notin> set b \<and> key = [Str a, Str b])
             items (row_keys D) \<and>
           (\<forall>a b. CHR ''+'' \<notin> set a \<and> CHR ''+'' \<notin> set b \<longrightarrow>
              count_list (row_keys D) [Str a, Str b] = count_list items (Str (a @ ''+'' @ b))) \<and>
           distinct (row_keys D) = distinct items"
  proof (intro exI[of _ D] conjI)
    show "frames st' dff = Some D" by (rule D(1))
    show "level_names D = [Some (Name ''cube_name''), Some (Name ''horizon_name'')]" by (rule D(2))
    show "col_labels D = columns" by (rule D(3))
    show "length (cells D) = length (cells R)" by (rule D(4))
    show "list_all2 (\<lambda>item key. \<exists>a b. item = Str (a @ ''+'' @ b) \<and>
               CHR ''+'' \<notin> set a \<and> CHR ''+'' \<notin> set b \<and> key = [Str a, Str b])
             items (row_keys D)"
      using la unfolding P_def .
    show "\<forall>a b. CHR ''+'' \<notin> set a \<and> CHR ''+'' \<notin> set b \<longrightarrow>
              count_list (row_keys D) [Str a, Str b] = count_list items (Str (a @ ''+'' @ b))"
      by (rule cnt)
    show "distinct (row_keys D) = distinct items" by (rule dist)
  qed
next
  assume a: "frames st results_df = Some R \<and> level_names R = [None] \<and>
    set (columns @ [Name ''cube_and_horizon'', Name ''repetition'']) \<subseteq> set (col_labels R) \<and>
    getitem_col R (Name ''cube_and_horizon'') = Inr items \<and> list_all one_delimiter items"
  then have "list_all (\<lambda>item. \<exists>s. item = Str s \<and> count_list s CHR ''+'' = 1) items"
    by (auto simp: list_all_iff one_delimiter_def split: cell.splits)
  with a show "\<exists>dff st'. project_and_index results_df st = (Inr dff, st')"
    using project_and_index_succeeds[of st results_df R items] by blast
qed


lemma sample_project_and_index:
  "fst (project_and_index 0 sample_store) = Inr 4 \<and>
   map_option row_keys (frames (snd (project_and_index 0 sample_store)) 4) =
     Some [[Str ''M_cube'', Str ''t0_J1_anon''], [Str ''M_cube'', Str ''t0_B_anon'']]"
  by code_simp

theorem composite_key_index_witness:
  "count_list ''M_cube+t0_J1_anon'' CHR ''+'' = 1 \<and>
   split CHR ''+'' ''M_cube+t0_J1_anon'' = [''M_cube'', ''t0_J1_anon''] \<and>
   frames sample_store 0 = Some sample_results \<and> wf_frame sample_results \<and>
   level_names sample_results = [None] \<and>
   getitem_col sample_results (Name ''cube_and_horizon'') =
     Inr [Str ''M_cube+t0_J1_anon'', Str ''M_cube+t0_B_anon''] \<and>
   list_all one_delimiter [Str ''M_cube+t0_J1_anon'', Str ''M_cube+t0_B_anon'' :: int cell] \<and>
   fst (project_and_index 0 sample_store) = Inr 4 \<and>
   (\<exists>D. frames (snd (project_and_index 0 sample_store)) 4 = Some D \<and>
        level_names D = [Some (Name ''cube_name''), Some (Name ''horizon_name'')] \<and>
        length (cells D) = length (cells sample_results) \<and>
        distinct (row_keys D) \<and>
        row_keys D = [[Str ''M_cube'', Str ''t0_J1_anon''], [Str ''M_cube'', Str ''t0_B_anon'']])"
proof -
  let ?items = "[Str ''M_cube+t0_J1_anon'', Str ''M_cube+t0_B_anon'' :: int cell]"
  let ?run = "project_and_index 0 sample_store :: (error + nat) \<times> int store"
  have c: "count_list ''M_cube+t0_J1_anon'' CHR ''+'' = 1" by simp
  have sp: "split CHR ''+'' ''M_cube+t0_J1_anon'' = [''M_cube'', ''t0_J1_anon'']" by simp
  have R: "frames sample_store 0 = Some sample_results" by (simp add: sample_store_def)
  have wf: "wf_frame sample_results" by (simp add: wf_frame_def sample_results_def)
  have ln: "level_names sample_results = [None]" by (simp add: sample_results_def)
  have it: "getitem_col sample_results (Name ''cube_and_horizon'') = Inr ?items"
    by (simp add: getitem_col_def sample_results_def cell_at_def)
  have one: "list_all one_delimiter ?items" by (simp add: one_delimiter_def)
  have di: "distinct ?items" by simp
  have run: "?run = (Inr 4, snd ?run)"
    using sample_project_and_index by (simp add: prod_eq_iff)
  from composite_key_index [of "''M_cube+t0_J1_anon''" sample_store 0 sample_results ?items 4
      "snd ?run"] c R wf it one run
  obtain D where D: "frames (snd ?run) 4 = Some D"
    "level_names D = [Some (Name ''cube_name''), Some (Name ''horizon_name'')]"
    "length (cells D) = length (cells sample_results)"
    "distinct (row_keys D) = distinct ?items"
    by blast
  have "row_keys D = [[Str ''M_cube'', Str ''t0_J1_anon''], [Str ''M_cube'', Str ''t0_B_anon'']]"
    using sample_project_and_index D(1) by simp
  then show ?thesis using c sp R wf ln it one D di sample_project_and_index by simp
qed

text \<open>
  C10. Whatever the results table holds and however the run ends, the summarizer leaves
  every object that was in the store before it started as it was, the loaded results table
  among them: the third cell alone, the fifth cell alone, and the two in sequence. What it
  builds, and what the key splitting writes into, lies at addresses that were fresh.
\<close>

theorem store_unchanged:
  "(summarize results_df st = (out, st') \<and> a < fresh st \<longrightarrow>
      frames st' a = frames st a \<and> fresh st \<le> fresh st') \<and>
   (project_and_index results_df st = (r1, st1) \<and> a < fresh st \<longrightarrow>
      frames st1 a = frames st a \<and> fresh st \<le> fresh st1) \<and>
   (reshape dff st = (r2, st2) \<and> a < fresh st \<longrightarrow>
      frames st2 a = frames st a \<and> fresh st \<le> fresh st2)"
  using keeps_summarize [of "fresh st" results_df, unfolded keeps_def]
    keeps_project_and_index [of "fresh st" results_df, unfolded keeps_def]
    keeps_reshape [of "fresh st" dff, unfolded keeps_def]
  by (meson order_refl)

lemma sample_summarize:
  "fst (summarize 0 sample_store) =
     Inr \<lparr>level_names = [Some (Name ''cube_name''), Some (Name ''horizon_name'')],
          row_keys = [[Str ''M_cube'', Str ''t0_B_anon''], [Str ''M_cube'', Str ''t0_J1_anon'']],
          col_labels = [Name ''window_rate_0'', Name ''window_rate_1'', Name ''window_rate_2'',
            Name ''coverage_0'', Name ''coverage_1'', Name ''coverage_2'',
            Name ''corr_0'', Name ''corr_1'', Name ''corr_2''],
          cells = [[Num 16, Num 17, Num 18, Num 13, Num 14, Num 15, Num 19, Num 20, Num 21],
                   [Num 4, Num 5, Num 6, Num 1, Num 2, Num 3, Num 7, Num 8, Num 9]]\<rparr> \<and>
   fresh (snd (summarize 0 sample_store)) = 13"
  by code_simp

theorem store_unchanged_witness:
  "(0::nat) < fresh sample_store \<and>
   frames (snd (summarize 0 sample_store)) 0 = Some sample_results \<and>
   fresh sample_store \<le> fresh (snd (summarize 0 sample_store)) \<and>
   fresh (snd (summarize 0 sample_store)) = 13 \<and>
   frames (snd (project_and_index 0 sample_store)) 0 = Some sample_results \<and>
   frames (snd (reshape 0 sample_store)) 0 = Some sample_results"
proof -
  have f: "(0::nat) < fresh sample_store" "frames sample_store 0 = Some sample_results"
    by (simp_all add: sample_store_def)
  have 1: "summarize 0 sample_store = (fst (summarize 0 sample_store), snd (summarize 0 sample_store))"
    by simp
  have 2: "project_and_index 0 sample_store =
      (fst (project_and_index 0 sample_store), snd (project_and_index 0 sample_store))"
    by simp
  have 3: "reshape 0 sample_store = (fst (reshape 0 sample_store), snd (reshape 0 sample_store))"
    by simp
  from store_unchanged [of 0 sample_store "fst (summarize 0 sample_store)"
      "snd (summarize 0 sample_store)" 0
      "fst (project_and_index 0 sample_store)" "snd (project_and_index 0 sample_store)"
      0 "fst (reshape 0 sample_store)" "snd (reshape 0 sample_store)"] f 1 2 3
  show ?thesis using sample_summarize by simp
qed

end
